theory Spec2Isabelle
  imports Main "HOL-Library.Word"
begin

unbundle bit_operations_syntax

section \<open>Apple DART IOMMU driver (drivers/iommu/apple-dart.c)\<close>

subsection \<open>Constants and machine types\<close>

type_synonym u32 = "32 word"
type_synonym u64 = "64 word"

text \<open>\<^verbatim>\<open>DECLARE_BITMAP(sidmap, DART_MAX_STREAMS)\<close>: one bit per stream id.\<close>

type_synonym sidmap_t = "256 word"

definition DART_MAX_STREAMS :: nat where
  "DART_MAX_STREAMS = 256"

definition DART_MAX_TTBR :: nat where
  "DART_MAX_TTBR = 4"

definition MAX_DARTS_PER_DEVICE :: nat where
  "MAX_DARTS_PER_DEVICE = 3"

text \<open>Return codes are C ints: 0 on success, a negated errno on failure.\<close>

definition ENOMEM :: int where
  "ENOMEM = 12"

definition ENODEV :: int where
  "ENODEV = 19"

definition EINVAL :: int where
  "EINVAL = 22"

text \<open>\<^verbatim>\<open>BIT(n)\<close> and \<^verbatim>\<open>DMA_BIT_MASK(n)\<close> of the kernel headers.\<close>

definition BIT :: "nat \<Rightarrow> u32" where
  "BIT n = push_bit n 1"

definition DMA_BIT_MASK :: "nat \<Rightarrow> u64" where
  "DMA_BIT_MASK n = (if n = 64 then NOT 0 else push_bit n 1 - 1)"

definition SZ_4K :: u64 where
  "SZ_4K = 0x1000"

definition DART_T8020_STREAMS_ENABLE :: u32 where
  "DART_T8020_STREAMS_ENABLE = 0xfc"

definition DART_T8020_CONFIG :: u32 where
  "DART_T8020_CONFIG = 0x60"

definition DART_T8020_CONFIG_LOCK :: u32 where
  "DART_T8020_CONFIG_LOCK = BIT 15"

definition DART_T8020_ERROR :: u32 where
  "DART_T8020_ERROR = 0x40"

definition DART_T8020_TCR :: u32 where
  "DART_T8020_TCR = 0x100"

definition DART_T8020_TCR_TRANSLATE_ENABLE :: u32 where
  "DART_T8020_TCR_TRANSLATE_ENABLE = BIT 7"

definition DART_T8020_TCR_BYPASS_DART :: u32 where
  "DART_T8020_TCR_BYPASS_DART = BIT 8"

definition DART_T8020_TCR_BYPASS_DAPF :: u32 where
  "DART_T8020_TCR_BYPASS_DAPF = BIT 12"

definition DART_T8020_TTBR :: u32 where
  "DART_T8020_TTBR = 0x200"

definition DART_T8020_USB4_TTBR :: u32 where
  "DART_T8020_USB4_TTBR = 0x400"

definition DART_T8020_TTBR_VALID :: u32 where
  "DART_T8020_TTBR_VALID = BIT 31"

definition DART_T8020_TTBR_ADDR_FIELD_SHIFT :: u32 where
  "DART_T8020_TTBR_ADDR_FIELD_SHIFT = 0"

definition DART_T8020_TTBR_SHIFT :: u32 where
  "DART_T8020_TTBR_SHIFT = 12"

definition DART_T8110_ERROR :: u32 where
  "DART_T8110_ERROR = 0x100"

definition DART_T8110_PROTECT :: u32 where
  "DART_T8110_PROTECT = 0x200"

definition DART_T8110_PROTECT_TTBR_TCR :: u32 where
  "DART_T8110_PROTECT_TTBR_TCR = BIT 0"

definition DART_T8110_ENABLE_STREAMS :: u32 where
  "DART_T8110_ENABLE_STREAMS = 0xc00"

definition DART_T8110_TCR :: u32 where
  "DART_T8110_TCR = 0x1000"

definition DART_T8110_TCR_FOUR_LEVEL :: u32 where
  "DART_T8110_TCR_FOUR_LEVEL = BIT 3"

definition DART_T8110_TCR_BYPASS_DAPF :: u32 where
  "DART_T8110_TCR_BYPASS_DAPF = BIT 2"

definition DART_T8110_TCR_BYPASS_DART :: u32 where
  "DART_T8110_TCR_BYPASS_DART = BIT 1"

definition DART_T8110_TCR_TRANSLATE_ENABLE :: u32 where
  "DART_T8110_TCR_TRANSLATE_ENABLE = BIT 0"

definition DART_T8110_TTBR :: u32 where
  "DART_T8110_TTBR = 0x1400"

definition DART_T8110_TTBR_VALID :: u32 where
  "DART_T8110_TTBR_VALID = BIT 0"

definition DART_T8110_TTBR_ADDR_FIELD_SHIFT :: u32 where
  "DART_T8110_TTBR_ADDR_FIELD_SHIFT = 2"

definition DART_T8110_TTBR_SHIFT :: u32 where
  "DART_T8110_TTBR_SHIFT = 14"

subsection \<open>Data model\<close>

datatype dart_type = DART_T8020 | DART_T6000 | DART_T8110

datatype io_pgtable_fmt = APPLE_DART | APPLE_DART2

text \<open>
  \<^verbatim>\<open>struct apple_dart_hw\<close>: the per-SoC register layout. The two function pointers
  (\<^verbatim>\<open>irq_handler\<close>, \<^verbatim>\<open>invalidate_tlb\<close>) are determined by \<open>hw_type\<close> and are left
  out. Fields whose C name is taken by a field of \<^verbatim>\<open>struct apple_dart\<close> carry the
  prefix \<open>hw_\<close>.
\<close>

record apple_dart_hw =
  hw_type :: dart_type
  hw_oas :: u32
  fmt :: io_pgtable_fmt
  max_sid_count :: nat
  lock :: u32
  lock_bit :: u32
  error :: u32
  enable_streams :: u32
  tcr :: u32
  tcr_enabled :: u32
  tcr_disabled :: u32
  tcr_bypass :: u32
  tcr_4level :: u32
  ttbr :: u32
  ttbr_valid :: u32
  ttbr_addr_field_shift :: u32
  ttbr_shift :: u32
  ttbr_count :: nat

text \<open>
  \<^verbatim>\<open>struct apple_dart\<close>. \<open>regs\<close> is the content of the MMIO window behind
  \<^verbatim>\<open>dart->regs\<close>, keyed by byte offset. \<open>locked_ttbr\<close> and \<open>shadow_ttbr\<close> are the
  \<^verbatim>\<open>u64 *\<close> arrays indexed \<^verbatim>\<open>[sid][idx]\<close>; a pointer is the index of the first
  64-bit cell it points at, \<open>None\<close> is \<^verbatim>\<open>NULL\<close>.
\<close>

record apple_dart =
  hw :: apple_dart_hw
  regs :: "u32 \<Rightarrow> u32"
  ias :: u32
  oas :: u32
  pgsize :: u32
  num_streams :: u32
  supports_bypass :: bool
  locked :: bool
  four_level :: bool
  dma_min :: u64
  dma_max :: u64
  locked_ttbr :: "nat \<Rightarrow> nat \<Rightarrow> nat option"
  shadow_ttbr :: "nat \<Rightarrow> nat \<Rightarrow> nat option"

text \<open>
  What the driver does beyond returning values is recorded in program order:
  \<^verbatim>\<open>WARN_ON\<close> splats, \<^verbatim>\<open>memset\<close> and \<^verbatim>\<open>devm_memunmap\<close> calls with their pointer
  arguments, runtime power references per unit, the init mutex, the read of the
  \<^verbatim>\<open>finalized\<close> flag and the call of the page-table allocator.
\<close>

datatype kevent =
    WARN
  | MEMSET nat nat
  | MEMUNMAP nat
  | PM_RUNTIME_GET nat
  | PM_RUNTIME_PUT nat
  | MUTEX_LOCK
  | MUTEX_UNLOCK
  | READ_FINALIZED
  | ALLOC_PGTABLE

text \<open>
  The kernel state the driver works on: the \<^verbatim>\<open>struct apple_dart\<close> objects by address,
  the memory reachable through \<^verbatim>\<open>u64 *\<close> pointers (one 64-bit cell per index), and the
  event log.
\<close>

record kstate =
  darts :: "nat \<Rightarrow> apple_dart"
  kmem :: "nat \<Rightarrow> u64"
  klog :: "kevent list"

text \<open>\<^verbatim>\<open>struct apple_dart_stream_map\<close>: a unit (\<open>None\<close> is \<^verbatim>\<open>NULL\<close>) and a stream bitmap.\<close>

record apple_dart_stream_map =
  dart :: "nat option"
  sidmap :: sidmap_t

subsection \<open>Register access\<close>

definition WARN_ON :: "bool \<Rightarrow> kstate \<Rightarrow> kstate" where
  "WARN_ON c s = (if c then s\<lparr>klog := klog s @ [WARN]\<rparr> else s)"

definition writel :: "u32 \<Rightarrow> nat \<Rightarrow> u32 \<Rightarrow> kstate \<Rightarrow> kstate" where
  "writel v d off s =
     s\<lparr>darts := (darts s)(d := (darts s d)\<lparr>regs := (regs (darts s d))(off := v)\<rparr>)\<rparr>"

definition readl :: "nat \<Rightarrow> u32 \<Rightarrow> kstate \<Rightarrow> u32" where
  "readl d off s = regs (darts s d) off"

text \<open>\<^verbatim>\<open>DART_TCR(dart, sid)\<close> and \<^verbatim>\<open>DART_TTBR(dart, sid, idx)\<close>, in 32-bit arithmetic.\<close>

definition DART_TCR :: "apple_dart \<Rightarrow> nat \<Rightarrow> u32" where
  "DART_TCR dt sid = tcr (hw dt) + push_bit 2 (of_nat sid)"

definition DART_TTBR :: "apple_dart \<Rightarrow> nat \<Rightarrow> nat \<Rightarrow> u32" where
  "DART_TTBR dt sid idx =
     ttbr (hw dt) + push_bit 2 (of_nat (ttbr_count (hw dt)) * of_nat sid) + push_bit 2 (of_nat idx)"

text \<open>
  \<^verbatim>\<open>for_each_set_bit(sid, sidmap, size)\<close> visits, in ascending order, the set bits
  below the given size. Every caller passes \<^verbatim>\<open>dart->num_streams\<close>, which probe bounds by
  \<open>DART_MAX_STREAMS\<close>.
\<close>

definition for_each_set_bit :: "sidmap_t \<Rightarrow> nat \<Rightarrow> nat list" where
  "for_each_set_bit m n = filter (\<lambda>sid. bit m sid) [0..<n]"

text \<open>
  The hardware operations take the unit of the stream map as an address: every call
  site has checked \<^verbatim>\<open>stream_map->dart\<close> against \<^verbatim>\<open>NULL\<close> (\<^verbatim>\<open>for_each_stream_map\<close>)
  or has just stored it.
\<close>

definition apple_dart_hw_disable_dma :: "nat \<Rightarrow> sidmap_t \<Rightarrow> kstate \<Rightarrow> kstate" where
  "apple_dart_hw_disable_dma d m s =
     (let dt = darts s d;
          s1 = WARN_ON (locked dt) s
      in fold (\<lambda>sid. writel (tcr_disabled (hw dt)) d (DART_TCR dt sid))
           (for_each_set_bit m (unat (num_streams dt))) s1)"

definition apple_dart_hw_enable_bypass :: "nat \<Rightarrow> sidmap_t \<Rightarrow> kstate \<Rightarrow> kstate" where
  "apple_dart_hw_enable_bypass d m s =
     (let dt = darts s d;
          s1 = WARN_ON (locked dt) s;
          s2 = WARN_ON (\<not> supports_bypass dt) s1
      in fold (\<lambda>sid. writel (tcr_bypass (hw dt)) d (DART_TCR dt sid))
           (for_each_set_bit m (unat (num_streams dt))) s2)"

text \<open>The four register layouts of the match table.\<close>

definition apple_dart_hw_t8103 :: apple_dart_hw where
  "apple_dart_hw_t8103 = \<lparr>
     hw_type = DART_T8020, hw_oas = 36, fmt = APPLE_DART, max_sid_count = 16,
     lock = DART_T8020_CONFIG, lock_bit = DART_T8020_CONFIG_LOCK,
     error = DART_T8020_ERROR, enable_streams = DART_T8020_STREAMS_ENABLE,
     tcr = DART_T8020_TCR, tcr_enabled = DART_T8020_TCR_TRANSLATE_ENABLE,
     tcr_disabled = 0,
     tcr_bypass = DART_T8020_TCR_BYPASS_DAPF OR DART_T8020_TCR_BYPASS_DART,
     tcr_4level = 0,
     ttbr = DART_T8020_TTBR, ttbr_valid = DART_T8020_TTBR_VALID,
     ttbr_addr_field_shift = DART_T8020_TTBR_ADDR_FIELD_SHIFT,
     ttbr_shift = DART_T8020_TTBR_SHIFT, ttbr_count = 4 \<rparr>"

definition apple_dart_hw_t8103_usb4 :: apple_dart_hw where
  "apple_dart_hw_t8103_usb4 = \<lparr>
     hw_type = DART_T8020, hw_oas = 36, fmt = APPLE_DART, max_sid_count = 64,
     lock = DART_T8020_CONFIG, lock_bit = DART_T8020_CONFIG_LOCK,
     error = DART_T8020_ERROR, enable_streams = DART_T8020_STREAMS_ENABLE,
     tcr = DART_T8020_TCR, tcr_enabled = DART_T8020_TCR_TRANSLATE_ENABLE,
     tcr_disabled = 0,
     tcr_bypass = 0,
     tcr_4level = 0,
     ttbr = DART_T8020_USB4_TTBR, ttbr_valid = DART_T8020_TTBR_VALID,
     ttbr_addr_field_shift = DART_T8020_TTBR_ADDR_FIELD_SHIFT,
     ttbr_shift = DART_T8020_TTBR_SHIFT, ttbr_count = 4 \<rparr>"

definition apple_dart_hw_t6000 :: apple_dart_hw where
  "apple_dart_hw_t6000 = \<lparr>
     hw_type = DART_T6000, hw_oas = 42, fmt = APPLE_DART2, max_sid_count = 16,
     lock = DART_T8020_CONFIG, lock_bit = DART_T8020_CONFIG_LOCK,
     error = DART_T8020_ERROR, enable_streams = DART_T8020_STREAMS_ENABLE,
     tcr = DART_T8020_TCR, tcr_enabled = DART_T8020_TCR_TRANSLATE_ENABLE,
     tcr_disabled = 0,
     tcr_bypass = DART_T8020_TCR_BYPASS_DAPF OR DART_T8020_TCR_BYPASS_DART,
     tcr_4level = 0,
     ttbr = DART_T8020_TTBR, ttbr_valid = DART_T8020_TTBR_VALID,
     ttbr_addr_field_shift = DART_T8020_TTBR_ADDR_FIELD_SHIFT,
     ttbr_shift = DART_T8020_TTBR_SHIFT, ttbr_count = 4 \<rparr>"

definition apple_dart_hw_t8110 :: apple_dart_hw where
  "apple_dart_hw_t8110 = \<lparr>
     hw_type = DART_T8110, hw_oas = 0, fmt = APPLE_DART2, max_sid_count = 256,
     lock = DART_T8110_PROTECT, lock_bit = DART_T8110_PROTECT_TTBR_TCR,
     error = DART_T8110_ERROR, enable_streams = DART_T8110_ENABLE_STREAMS,
     tcr = DART_T8110_TCR, tcr_enabled = DART_T8110_TCR_TRANSLATE_ENABLE,
     tcr_disabled = 0,
     tcr_bypass = DART_T8110_TCR_BYPASS_DAPF OR DART_T8110_TCR_BYPASS_DART,
     tcr_4level = DART_T8110_TCR_FOUR_LEVEL,
     ttbr = DART_T8110_TTBR, ttbr_valid = DART_T8110_TTBR_VALID,
     ttbr_addr_field_shift = DART_T8110_TTBR_ADDR_FIELD_SHIFT,
     ttbr_shift = DART_T8110_TTBR_SHIFT, ttbr_count = 1 \<rparr>"

subsection \<open>Locked units: the shadow of the first-level table\<close>

text \<open>
  One iteration of the innermost loop of \<^verbatim>\<open>apple_dart_hw_sync_locked\<close>:
  \<^verbatim>\<open>ttbrep[entry] = ptep[entry]\<close>.
\<close>

definition copy_entry :: "nat \<Rightarrow> nat \<Rightarrow> nat \<Rightarrow> kstate \<Rightarrow> kstate" where
  "copy_entry ttbrep ptep entry s =
     s\<lparr>kmem := (kmem s)(ttbrep + entry := kmem s (ptep + entry))\<rparr>"

text \<open>
  The body of the loop over \<open>idx\<close>: skip the slot unless both tables are mapped,
  otherwise copy \<^verbatim>\<open>dart->pgsize / sizeof(*ptep)\<close> entries in ascending order.
\<close>

definition sync_slot :: "apple_dart \<Rightarrow> nat \<Rightarrow> nat \<Rightarrow> kstate \<Rightarrow> kstate" where
  "sync_slot dt sid idx s =
     (case locked_ttbr dt sid idx of
        None \<Rightarrow> s
      | Some ttbrep \<Rightarrow>
          (case shadow_ttbr dt sid idx of
             None \<Rightarrow> s
           | Some ptep \<Rightarrow> fold (copy_entry ttbrep ptep) [0..<unat (pgsize dt) div 8] s))"

definition apple_dart_hw_sync_locked :: "nat \<Rightarrow> sidmap_t \<Rightarrow> kstate \<Rightarrow> int \<times> kstate" where
  "apple_dart_hw_sync_locked d m s =
     (let dt = darts s d;
          s1 = WARN_ON (\<not> locked dt) s
      in (0, fold (\<lambda>sid. fold (sync_slot dt sid) [0..<ttbr_count (hw dt)])
               (for_each_set_bit m (unat (num_streams dt))) s1))"

text \<open>
  \<^verbatim>\<open>memset(p, 0, n)\<close> on memory seen as 64-bit cells (little endian): the first
  \<open>n div 8\<close> cells become 0, and the low \<open>n mod 8\<close> bytes of the next one.
\<close>

definition memset0 :: "nat \<Rightarrow> nat \<Rightarrow> kstate \<Rightarrow> kstate" where
  "memset0 p n s =
     (let q = n div 8;
          r = n mod 8;
          m1 = (\<lambda>a. if p \<le> a \<and> a < p + q then 0 else kmem s a);
          m2 = (if r = 0 then m1 else m1(p + q := m1 (p + q) AND NOT (mask (8 * r))))
      in s\<lparr>kmem := m2, klog := klog s @ [MEMSET p n]\<rparr>)"

definition devm_memunmap :: "nat \<Rightarrow> kstate \<Rightarrow> kstate" where
  "devm_memunmap p s = s\<lparr>klog := klog s @ [MEMUNMAP p]\<rparr>"

definition set_locked_ttbr :: "nat \<Rightarrow> nat \<Rightarrow> nat \<Rightarrow> nat option \<Rightarrow> kstate \<Rightarrow> kstate" where
  "set_locked_ttbr d sid idx v s =
     s\<lparr>darts := (darts s)(d := (darts s d)\<lparr>locked_ttbr :=
          (locked_ttbr (darts s d))(sid := (locked_ttbr (darts s d) sid)(idx := v))\<rparr>)\<rparr>"

definition set_shadow_ttbr :: "nat \<Rightarrow> nat \<Rightarrow> nat \<Rightarrow> nat option \<Rightarrow> kstate \<Rightarrow> kstate" where
  "set_shadow_ttbr d sid idx v s =
     s\<lparr>darts := (darts s)(d := (darts s d)\<lparr>shadow_ttbr :=
          (shadow_ttbr (darts s d))(sid := (shadow_ttbr (darts s d) sid)(idx := v))\<rparr>)\<rparr>"

text \<open>The body of the loop of \<^verbatim>\<open>apple_dart_hw_clear_locked_ttbr\<close>, for one stream.\<close>

definition clear_locked_slot :: "nat \<Rightarrow> nat \<Rightarrow> nat \<Rightarrow> kstate \<Rightarrow> kstate" where
  "clear_locked_slot d idx sid s =
     (let s1 = (case locked_ttbr (darts s d) sid idx of
                  None \<Rightarrow> s
                | Some l \<Rightarrow> devm_memunmap l (memset0 l (unat (pgsize (darts s d))) s));
          s2 = set_locked_ttbr d sid idx None s1;
          s3 = (case shadow_ttbr (darts s2 d) sid idx of
                  None \<Rightarrow> s2
                | Some p \<Rightarrow> devm_memunmap p s2)
      in set_shadow_ttbr d sid idx None s3)"

definition apple_dart_hw_clear_locked_ttbr ::
  "nat \<Rightarrow> sidmap_t \<Rightarrow> nat \<Rightarrow> kstate \<Rightarrow> int \<times> kstate" where
  "apple_dart_hw_clear_locked_ttbr d m idx s =
     (let dt = darts s d;
          s1 = WARN_ON (\<not> locked dt) s
      in (0, fold (clear_locked_slot d idx) (for_each_set_bit m (unat (num_streams dt))) s1))"

subsection \<open>Master configuration and firmware specifiers\<close>

text \<open>
  \<^verbatim>\<open>struct apple_dart_master_cfg\<close>; the array \<^verbatim>\<open>stream_maps[MAX_DARTS_PER_DEVICE]\<close>
  is a function of the index, read at 0, 1 and 2 only.
\<close>

record apple_dart_master_cfg =
  cfg_supports_bypass :: bool
  stream_maps :: "nat \<Rightarrow> apple_dart_stream_map"

text \<open>
  What the kernel does where the C has no defined result: a store through \<^verbatim>\<open>NULL\<close>,
  a bit set outside the bitmap, a division by zero.
\<close>

datatype fault = NULL_DEREF | OUT_OF_BOUNDS | DIV_BY_ZERO

definition kzalloc_master_cfg :: apple_dart_master_cfg where
  "kzalloc_master_cfg =
     \<lparr>cfg_supports_bypass = False, stream_maps = (\<lambda>i. \<lparr>dart = None, sidmap = 0\<rparr>)\<rparr>"

text \<open>\<^verbatim>\<open>set_bit(sid, cfg->stream_maps[i].sidmap)\<close> on the 256-bit bitmap.\<close>

definition cfg_set_bit :: "int \<Rightarrow> nat \<Rightarrow> apple_dart_master_cfg \<Rightarrow> fault + apple_dart_master_cfg" where
  "cfg_set_bit sid i c =
     (if 0 \<le> sid \<and> sid < int DART_MAX_STREAMS
      then Inr (c\<lparr>stream_maps := (stream_maps c)
                  (i := (stream_maps c i)\<lparr>sidmap := set_bit (nat sid) (sidmap (stream_maps c i))\<rparr>)\<rparr>)
      else Inl OUT_OF_BOUNDS)"

text \<open>
  The two loops at the end of \<^verbatim>\<open>apple_dart_of_xlate\<close>: the first slot that already
  holds the unit gets the bit; failing that, the first empty slot gets the unit and the
  bit; failing that, \<^verbatim>\<open>-EINVAL\<close>.
\<close>

definition of_xlate_slots ::
  "apple_dart_master_cfg \<Rightarrow> nat \<Rightarrow> int \<Rightarrow> fault + int \<times> apple_dart_master_cfg option" where
  "of_xlate_slots c d sid =
     (case find (\<lambda>i. dart (stream_maps c i) = Some d) [0..<MAX_DARTS_PER_DEVICE] of
        Some i \<Rightarrow>
          (case cfg_set_bit sid i c of
             Inl f \<Rightarrow> Inl f
           | Inr c2 \<Rightarrow> Inr (0, Some c2))
      | None \<Rightarrow>
          (case find (\<lambda>i. dart (stream_maps c i) = None) [0..<MAX_DARTS_PER_DEVICE] of
             Some i \<Rightarrow>
               (case cfg_set_bit sid i
                       (c\<lparr>stream_maps := (stream_maps c)
                            (i := (stream_maps c i)\<lparr>dart := Some d\<rparr>)\<rparr>) of
                  Inl f \<Rightarrow> Inl f
                | Inr c2 \<Rightarrow> Inr (0, Some c2))
           | None \<Rightarrow> Inr (- EINVAL, Some c)))"

text \<open>
  \<^verbatim>\<open>apple_dart_of_xlate\<close>. \<open>priv\<close> is \<^verbatim>\<open>dev_iommu_priv_get(dev)\<close>, \<open>d\<close> the unit the
  specifier's node resolves to, \<open>args_count\<close> and \<open>arg0\<close> the specifier, \<open>kzalloc_ok\<close>
  whether the allocation of a new config succeeds. The result is the return code and
  the device's private pointer afterwards. When \<^verbatim>\<open>kzalloc\<close> fails the C stores
  \<^verbatim>\<open>cfg->supports_bypass\<close> before it tests \<^verbatim>\<open>cfg\<close>, so its \<^verbatim>\<open>-ENOMEM\<close> return is
  never reached.
\<close>

definition apple_dart_of_xlate ::
  "(nat \<Rightarrow> apple_dart) \<Rightarrow> bool \<Rightarrow> apple_dart_master_cfg option \<Rightarrow> nat \<Rightarrow> int \<Rightarrow> u32 \<Rightarrow>
   fault + int \<times> apple_dart_master_cfg option" where
  "apple_dart_of_xlate ds kzalloc_ok priv d args_count arg0 =
     (if args_count \<noteq> 1 then Inr (- EINVAL, priv)
      else
        let sid = sint arg0 in
        case (case priv of
                Some c \<Rightarrow> Some c
              | None \<Rightarrow> if kzalloc_ok
                        then Some (kzalloc_master_cfg\<lparr>cfg_supports_bypass := True\<rparr>)
                        else None) of
          None \<Rightarrow> Inl NULL_DEREF
        | Some c \<Rightarrow>
            if (case dart (stream_maps c 0) of
                  None \<Rightarrow> False
                | Some cfg_dart \<Rightarrow> pgsize (ds cfg_dart) \<noteq> pgsize (ds d))
            then Inr (- EINVAL, Some c)
            else of_xlate_slots
                   (if \<not> supports_bypass (ds d) then c\<lparr>cfg_supports_bypass := False\<rparr> else c)
                   d sid)"

subsection \<open>Attaching the identity domain\<close>

text \<open>
  \<^verbatim>\<open>for_each_stream_map(i, base, stream_map)\<close>: the leading slots whose unit is not
  \<^verbatim>\<open>NULL\<close>, at most \<open>MAX_DARTS_PER_DEVICE\<close> of them.
\<close>

definition for_each_stream_map :: "(nat \<Rightarrow> apple_dart_stream_map) \<Rightarrow> (nat \<times> sidmap_t) list" where
  "for_each_stream_map maps =
     concat (map (\<lambda>i. case dart (maps i) of None \<Rightarrow> [] | Some d \<Rightarrow> [(d, sidmap (maps i))])
               (takeWhile (\<lambda>i. dart (maps i) \<noteq> None) [0..<MAX_DARTS_PER_DEVICE]))"

text \<open>
  \<^verbatim>\<open>pm_runtime_get_sync\<close> and \<^verbatim>\<open>pm_runtime_put\<close> are logged; the resume is taken to
  succeed, so the \<^verbatim>\<open>WARN_ON\<close> around it stays silent.
\<close>

definition pm_runtime_get_sync :: "nat \<Rightarrow> kstate \<Rightarrow> kstate" where
  "pm_runtime_get_sync d s = s\<lparr>klog := klog s @ [PM_RUNTIME_GET d]\<rparr>"

definition pm_runtime_put :: "nat \<Rightarrow> kstate \<Rightarrow> kstate" where
  "pm_runtime_put d s = s\<lparr>klog := klog s @ [PM_RUNTIME_PUT d]\<rparr>"

definition apple_dart_attach_dev_identity ::
  "apple_dart_master_cfg \<Rightarrow> kstate \<Rightarrow> fault + int \<times> kstate" where
  "apple_dart_attach_dev_identity c s =
     (if \<not> cfg_supports_bypass c then Inr (- EINVAL, s)
      else
        case dart (stream_maps c 0) of
          None \<Rightarrow> Inl NULL_DEREF
        | Some d0 \<Rightarrow>
            if locked (darts s d0) then Inr (- EINVAL, s)
            else
              let sms = for_each_stream_map (stream_maps c);
                  s1 = fold (\<lambda>(d, m). pm_runtime_get_sync d) sms s;
                  s2 = fold (\<lambda>(d, m). apple_dart_hw_enable_bypass d m) sms s1;
                  s3 = fold (\<lambda>(d, m). pm_runtime_put d) sms s2
              in Inr (0, s3))"

subsection \<open>Domains and the page-table engine\<close>

text \<open>
  \<^verbatim>\<open>struct io_pgtable_cfg\<close>, with the fields the driver sets or reads; the members of
  \<^verbatim>\<open>apple_dart_cfg\<close> are \<open>ttbr_cfg\<close>, \<open>n_ttbrs\<close> and \<open>n_levels\<close>.
\<close>

record io_pgtable_cfg =
  pgsize_bitmap :: u64
  cfg_ias :: u32
  cfg_oas :: u32
  coherent_walk :: bool
  ttbr_cfg :: "nat \<Rightarrow> u64"
  n_ttbrs :: u32
  n_levels :: u32

text \<open>
  The page-table engine (io-pgtable) is outside this driver. Its operations are
  parameters: functions on the engine's own table state \<open>'pt\<close>. \<open>map_pages\<close> takes
  the value behind \<^verbatim>\<open>size_t *mapped\<close> and returns it updated.
\<close>

record 'pt io_pgtable_ops =
  map_pages :: "'pt \<Rightarrow> u64 \<Rightarrow> u64 \<Rightarrow> u64 \<Rightarrow> u64 \<Rightarrow> int \<Rightarrow> nat \<Rightarrow> u64 \<Rightarrow> int \<times> u64 \<times> 'pt"
  unmap_pages :: "'pt \<Rightarrow> u64 \<Rightarrow> u64 \<Rightarrow> u64 \<Rightarrow> u64 \<times> 'pt"
  iova_to_phys :: "'pt \<Rightarrow> u64 \<Rightarrow> u64"

record 'pt io_pgtable =
  pt_ops :: "'pt io_pgtable_ops"
  pt_cfg :: io_pgtable_cfg
  pt_tbl :: 'pt

record iommu_domain =
  dom_pgsize_bitmap :: u64
  aperture_start :: u64
  aperture_end :: u64
  force_aperture :: bool

text \<open>
  \<^verbatim>\<open>struct apple_dart_domain\<close>. \<open>dom_mask\<close> is the C field \<^verbatim>\<open>mask\<close>, and
  \<open>dom_stream_maps\<close> the array \<^verbatim>\<open>stream_maps\<close> of atomic stream maps. The mutex
  \<^verbatim>\<open>init_lock\<close> shows in the event log only.
\<close>

record 'pt apple_dart_domain =
  pgtbl_ops :: "'pt io_pgtable option"
  finalized :: bool
  dom_mask :: u64
  dom_stream_maps :: "nat \<Rightarrow> apple_dart_stream_map"
  domain :: iommu_domain

definition apple_dart_iova_to_phys :: "'pt apple_dart_domain \<Rightarrow> u64 \<Rightarrow> u64" where
  "apple_dart_iova_to_phys dd iova =
     (case pgtbl_ops dd of
        None \<Rightarrow> 0
      | Some pt \<Rightarrow> iova_to_phys (pt_ops pt) (pt_tbl pt) (iova AND dom_mask dd))"

definition apple_dart_map_pages ::
  "'pt apple_dart_domain \<Rightarrow> u64 \<Rightarrow> u64 \<Rightarrow> u64 \<Rightarrow> u64 \<Rightarrow> int \<Rightarrow> nat \<Rightarrow> u64 \<Rightarrow>
   int \<times> u64 \<times> 'pt apple_dart_domain" where
  "apple_dart_map_pages dd iova paddr pgsz pgcount prot gfpf mapped =
     (case pgtbl_ops dd of
        None \<Rightarrow> (- ENODEV, mapped, dd)
      | Some pt \<Rightarrow>
          (case map_pages (pt_ops pt) (pt_tbl pt) (iova AND dom_mask dd) paddr pgsz pgcount
                  prot gfpf mapped of
             (ret, mapped', t') \<Rightarrow> (ret, mapped', dd\<lparr>pgtbl_ops := Some (pt\<lparr>pt_tbl := t'\<rparr>)\<rparr>)))"

text \<open>
  \<^verbatim>\<open>apple_dart_unmap_pages\<close> calls through \<^verbatim>\<open>ops\<close> without a test; with no page
  table that is a call through \<^verbatim>\<open>NULL\<close>.
\<close>

definition apple_dart_unmap_pages ::
  "'pt apple_dart_domain \<Rightarrow> u64 \<Rightarrow> u64 \<Rightarrow> u64 \<Rightarrow> fault + u64 \<times> 'pt apple_dart_domain" where
  "apple_dart_unmap_pages dd iova pgsz pgcount =
     (case pgtbl_ops dd of
        None \<Rightarrow> Inl NULL_DEREF
      | Some pt \<Rightarrow>
          (case unmap_pages (pt_ops pt) (pt_tbl pt) (iova AND dom_mask dd) pgsz pgcount of
             (n, t') \<Rightarrow> Inr (n, dd\<lparr>pgtbl_ops := Some (pt\<lparr>pt_tbl := t'\<rparr>)\<rparr>)))"

subsection \<open>Reserved regions\<close>

datatype iommu_resv_type =
    IOMMU_RESV_DIRECT
  | IOMMU_RESV_DIRECT_RELAXABLE
  | IOMMU_RESV_RESERVED
  | IOMMU_RESV_MSI
  | IOMMU_RESV_SW_MSI
  | IOMMU_RESV_TRANSLATED

text \<open>\<^verbatim>\<open>struct iommu_resv_region\<close>: \<^verbatim>\<open>start\<close>, \<^verbatim>\<open>dva\<close>, \<^verbatim>\<open>length\<close>, \<^verbatim>\<open>prot\<close>, \<^verbatim>\<open>type\<close>.\<close>

record iommu_resv_region =
  resv_start :: u64
  resv_dva :: u64
  resv_length :: u64
  resv_prot :: int
  resv_type :: iommu_resv_type

definition GFP_KERNEL :: nat where
  "GFP_KERNEL = 0xcc0"

text \<open>
  The \<^verbatim>\<open>while (mapped < region->length)\<close> loop of \<^verbatim>\<open>apple_dart_setup_resv_locked\<close>.
  Whether it ends is up to the engine, which advances \<open>mapped\<close>; the loop runs on
  fuel and \<open>None\<close> means the fuel ran out.
\<close>

fun resv_map_region ::
  "nat \<Rightarrow> 'pt apple_dart_domain \<Rightarrow> iommu_resv_region \<Rightarrow> u64 \<Rightarrow> u64 \<Rightarrow>
   (fault + int \<times> 'pt apple_dart_domain) option" where
  "resv_map_region 0 dd r pgsz mapped = None"
| "resv_map_region (Suc fuel) dd r pgsz mapped =
     (if mapped < resv_length r then
        if pgsz = 0 then Some (Inl DIV_BY_ZERO)
        else
          let paddr = resv_start r + mapped;
              iova = resv_dva r + mapped;
              len = resv_length r - mapped;
              pgcount = len div pgsz
          in case apple_dart_map_pages dd iova paddr pgsz pgcount (resv_prot r) GFP_KERNEL mapped of
               (ret, mapped', dd') \<Rightarrow>
                 if ret \<noteq> 0 then Some (Inr (ret, dd'))
                 else resv_map_region fuel dd' r pgsz mapped'
      else Some (Inr (0, dd)))"

text \<open>
  \<^verbatim>\<open>apple_dart_setup_resv_locked\<close>; \<open>regions\<close> is the list that
  \<^verbatim>\<open>of_iommu_get_resv_regions\<close> yields for the device.
\<close>

fun apple_dart_setup_resv_locked ::
  "nat \<Rightarrow> 'pt apple_dart_domain \<Rightarrow> iommu_resv_region list \<Rightarrow> u64 \<Rightarrow>
   (fault + int \<times> 'pt apple_dart_domain) option" where
  "apple_dart_setup_resv_locked fuel dd [] pgsz = Some (Inr (0, dd))"
| "apple_dart_setup_resv_locked fuel dd (r # rs) pgsz =
     (if resv_type r \<noteq> IOMMU_RESV_TRANSLATED then apple_dart_setup_resv_locked fuel dd rs pgsz
      else
        case resv_map_region fuel dd r pgsz 0 of
          None \<Rightarrow> None
        | Some (Inl f) \<Rightarrow> Some (Inl f)
        | Some (Inr (ret, dd')) \<Rightarrow>
            if ret \<noteq> 0 then Some (Inr (ret, dd'))
            else apple_dart_setup_resv_locked fuel dd' rs pgsz)"

subsection \<open>Finalizing a domain\<close>

text \<open>\<^verbatim>\<open>fls64\<close>: the 1-based position of the highest set bit, 0 for 0.\<close>

fun bit_length :: "nat \<Rightarrow> nat" where
  "bit_length n = (if n = 0 then 0 else Suc (bit_length (n div 2)))"

declare bit_length.simps [simp del]

definition fls64 :: "u64 \<Rightarrow> nat" where
  "fls64 x = bit_length (unat x)"

definition find_first_bit :: "sidmap_t \<Rightarrow> nat \<Rightarrow> nat" where
  "find_first_bit m n = (case for_each_set_bit m n of [] \<Rightarrow> n | sid # rest \<Rightarrow> sid)"

definition bitmap_weight :: "sidmap_t \<Rightarrow> nat \<Rightarrow> nat" where
  "bitmap_weight m n = length (for_each_set_bit m n)"

definition BITS_TO_LONGS :: "nat \<Rightarrow> nat" where
  "BITS_TO_LONGS n = (n + 63) div 64"

text \<open>
  The inner loop of the copy of the stream maps: \<^verbatim>\<open>atomic_long_set\<close> on the first
  \<open>nlongs\<close> 64-bit words of the domain's bitmap, the rest keeps its value.
\<close>

definition copy_sidmap_longs :: "nat \<Rightarrow> sidmap_t \<Rightarrow> sidmap_t \<Rightarrow> sidmap_t" where
  "copy_sidmap_longs nlongs src dst =
     (src AND mask (64 * nlongs)) OR (dst AND NOT (mask (64 * nlongs)))"

definition copy_stream_maps ::
  "nat \<Rightarrow> (nat \<Rightarrow> apple_dart_stream_map) \<Rightarrow> (nat \<Rightarrow> apple_dart_stream_map) \<Rightarrow>
   (nat \<Rightarrow> apple_dart_stream_map)" where
  "copy_stream_maps nlongs src dst =
     (\<lambda>i. if i < MAX_DARTS_PER_DEVICE
          then \<lparr>dart = dart (src i),
                sidmap = copy_sidmap_longs nlongs (sidmap (src i)) (sidmap (dst i))\<rparr>
          else dst i)"

text \<open>
  The block \<^verbatim>\<open>if (dart->locked) { ... }\<close> of \<^verbatim>\<open>apple_dart_finalize_domain\<close>: it
  keeps the level count the hardware is set to. The result is \<open>Inl ret\<close> for the
  \<^verbatim>\<open>goto done\<close> with an error, otherwise the page-table configuration and
  \<^verbatim>\<open>dma_max\<close>.
\<close>

definition finalize_locked ::
  "nat \<Rightarrow> sidmap_t \<Rightarrow> u32 \<Rightarrow> io_pgtable_cfg \<Rightarrow> u64 \<Rightarrow> kstate \<Rightarrow>
   (int + io_pgtable_cfg \<times> u64) \<times> kstate" where
  "finalize_locked d m ias0 pc dmax s =
     (let dt = darts s d;
          sid = find_first_bit m (unat (num_streams dt));
          s1 = WARN_ON (bitmap_weight m (unat (num_streams dt)) > 1) s;
          ttbr0 = readl d (DART_TTBR dt sid 0) s1;
          s2 = WARN_ON (ttbr0 AND ttbr_valid (hw dt) = 0) s1
      in if tcr_4level (hw dt) \<noteq> 0 \<and> ias dt > 36 then
           if readl d (DART_TCR dt sid) s2 AND tcr_4level (hw dt) \<noteq> 0 then
             (Inr (if ias0 < 37 then pc\<lparr>cfg_ias := 37\<rparr> else pc, dmax), s2)
           else if ias0 > 36 then
             if dma_min dt = 0 \<and> dmax = DMA_BIT_MASK (unat (ias dt)) then
               (Inr (pc\<lparr>cfg_ias := 36\<rparr>, DMA_BIT_MASK 36), s2)
             else if (dma_min dt XOR dmax) AND NOT (DMA_BIT_MASK 36) \<noteq> 0 then
               (Inl (- ENOMEM), s2)
             else (Inr (pc\<lparr>cfg_ias := 36\<rparr>, dmax), s2)
           else (Inr (pc, dmax), s2)
         else (Inr (pc, dmax), s2))"

definition log_event :: "kevent \<Rightarrow> kstate \<Rightarrow> kstate" where
  "log_event e s = s\<lparr>klog := klog s @ [e]\<rparr>"

text \<open>The assignment of \<^verbatim>\<open>dart_domain->mask\<close> after the allocation.\<close>

definition finalize_mask :: "apple_dart \<Rightarrow> io_pgtable_cfg \<Rightarrow> u64 \<Rightarrow> u64" where
  "finalize_mask dt pc old =
     (if pgsize_bitmap pc = SZ_4K then DMA_BIT_MASK (unat (min (ias dt) 32))
      else if n_levels pc = 3 then DMA_BIT_MASK (unat (min (ias dt) 36))
      else if n_levels pc = 4 then DMA_BIT_MASK (unat (min (ias dt) 47))
      else old)"

text \<open>
  The initializer \<^verbatim>\<open>pgtbl_cfg = (struct io_pgtable_cfg){ ... }\<close>; the members it does
  not name are zero.
\<close>

definition finalize_init_cfg :: "apple_dart \<Rightarrow> u32 \<Rightarrow> io_pgtable_cfg" where
  "finalize_init_cfg dt ias0 =
     \<lparr>pgsize_bitmap = ucast (pgsize dt), cfg_ias = ias0, cfg_oas = oas dt,
      coherent_walk = True, ttbr_cfg = (\<lambda>i. 0), n_ttbrs = 0, n_levels = 0\<rparr>"

text \<open>
  The configuration handed to the allocator: the locals \<^verbatim>\<open>dma_max\<close> and \<^verbatim>\<open>ias\<close>
  of \<^verbatim>\<open>apple_dart_finalize_domain\<close> (the width the DMA range needs, at most the
  unit's), the initializer of \<^verbatim>\<open>pgtbl_cfg\<close>, and for a locked unit the block above.
  Nothing in between writes the fields of the unit that are read here.
\<close>

definition finalize_prepare ::
  "nat \<Rightarrow> apple_dart_master_cfg \<Rightarrow> kstate \<Rightarrow> (int + io_pgtable_cfg \<times> u64) \<times> kstate" where
  "finalize_prepare d c s1 =
     (let dt = darts s1 d;
          dmax0 = dma_max dt;
          ias0 = min (ias dt) (of_nat (fls64 dmax0));
          pc0 = finalize_init_cfg dt ias0
      in if locked dt
         then finalize_locked d (sidmap (stream_maps c 0)) ias0 pc0 dmax0 s1
         else (Inr (pc0, dmax0), s1))"

text \<open>
  The part of \<^verbatim>\<open>apple_dart_finalize_domain\<close> from the call of
  \<^verbatim>\<open>alloc_io_pgtable_ops\<close> to the label \<^verbatim>\<open>done\<close>. The allocator returns the
  configuration as the engine completed it, and the page table.
\<close>

definition finalize_alloc ::
  "(io_pgtable_fmt \<Rightarrow> io_pgtable_cfg \<Rightarrow> (io_pgtable_cfg \<times> 'pt io_pgtable) option) \<Rightarrow>
   iommu_resv_region list \<Rightarrow> nat \<Rightarrow> apple_dart \<Rightarrow> io_pgtable_cfg \<Rightarrow> u64 \<Rightarrow>
   'pt apple_dart_domain \<Rightarrow> kstate \<Rightarrow>
   (fault + int \<times> 'pt apple_dart_domain \<times> kstate) option" where
  "finalize_alloc alloc_io_pgtable_ops regions fuel dt pc1 dmax1 dd1 s2 =
     (let s3 = log_event ALLOC_PGTABLE s2 in
      case alloc_io_pgtable_ops (fmt (hw dt)) pc1 of
        None \<Rightarrow> Some (Inr (- ENOMEM, dd1\<lparr>pgtbl_ops := None\<rparr>, log_event MUTEX_UNLOCK s3))
      | Some (pc2, pt) \<Rightarrow>
          let dd2 = dd1\<lparr>pgtbl_ops := Some pt,
                        dom_mask := finalize_mask dt pc2 (dom_mask dd1),
                        domain := \<lparr>dom_pgsize_bitmap = pgsize_bitmap pc2,
                                   aperture_start = dma_min dt,
                                   aperture_end = dmax1,
                                   force_aperture = True\<rparr>,
                        finalized := True\<rparr>
          in
          case apple_dart_setup_resv_locked fuel dd2 regions (ucast (pgsize dt)) of
            None \<Rightarrow> None
          | Some (Inl f) \<Rightarrow> Some (Inl f)
          | Some (Inr (ret, dd3)) \<Rightarrow> Some (Inr (ret, dd3, log_event MUTEX_UNLOCK s3)))"

text \<open>
  \<^verbatim>\<open>apple_dart_finalize_domain\<close>. Parameters from outside the driver: \<open>PAGE_SIZE\<close>
  of the kernel, the allocator \<^verbatim>\<open>alloc_io_pgtable_ops\<close>, the device's reserved
  regions, and the fuel of the reserved-region loop.
\<close>

definition apple_dart_finalize_domain ::
  "nat \<Rightarrow> (io_pgtable_fmt \<Rightarrow> io_pgtable_cfg \<Rightarrow> (io_pgtable_cfg \<times> 'pt io_pgtable) option) \<Rightarrow>
   iommu_resv_region list \<Rightarrow> nat \<Rightarrow>
   'pt apple_dart_domain \<Rightarrow> apple_dart_master_cfg \<Rightarrow> kstate \<Rightarrow>
   (fault + int \<times> 'pt apple_dart_domain \<times> kstate) option" where
  "apple_dart_finalize_domain PAGE_SIZE alloc_io_pgtable_ops regions fuel dd c s =
     (case dart (stream_maps c 0) of
        None \<Rightarrow> Some (Inl NULL_DEREF)
      | Some d \<Rightarrow>
          let dt = darts s d in
          if unat (pgsize dt) > PAGE_SIZE then Some (Inr (- EINVAL, dd, s))
          else
            let s1 = log_event READ_FINALIZED (log_event MUTEX_LOCK s) in
            if finalized dd then Some (Inr (0, dd, log_event MUTEX_UNLOCK s1))
            else
              let dd1 = dd\<lparr>dom_stream_maps :=
                          copy_stream_maps (BITS_TO_LONGS (unat (num_streams dt)))
                            (stream_maps c) (dom_stream_maps dd)\<rparr>
              in
              case finalize_prepare d c s1 of
                (Inl ret, s2) \<Rightarrow> Some (Inr (ret, dd1, log_event MUTEX_UNLOCK s2))
              | (Inr (pc1, dmax1), s2) \<Rightarrow>
                  finalize_alloc alloc_io_pgtable_ops regions fuel dt pc1 dmax1 dd1 s2)"

text \<open>The zeroed domain that \<^verbatim>\<open>apple_dart_domain_alloc_paging\<close> gets from \<^verbatim>\<open>kzalloc\<close>.\<close>

definition kzalloc_domain :: "'pt apple_dart_domain" where
  "kzalloc_domain =
     \<lparr>pgtbl_ops = None, finalized = False, dom_mask = 0,
      dom_stream_maps = (\<lambda>i. \<lparr>dart = None, sidmap = 0\<rparr>),
      domain = \<lparr>dom_pgsize_bitmap = 0, aperture_start = 0, aperture_end = 0,
                force_aperture = False\<rparr>\<rparr>"

subsection \<open>Notions used in the statements\<close>

text \<open>
  The array bounds that probe and the match table establish:
  \<^verbatim>\<open>num_streams <= DART_MAX_STREAMS\<close> and \<^verbatim>\<open>ttbr_count <= DART_MAX_TTBR\<close>.
\<close>

definition dart_in_bounds :: "apple_dart \<Rightarrow> bool" where
  "dart_in_bounds dt =
     (unat (num_streams dt) \<le> DART_MAX_STREAMS \<and> ttbr_count (hw dt) \<le> DART_MAX_TTBR)"

text \<open>
  The (locked table, shadow table) pointer pairs that one call of
  \<^verbatim>\<open>apple_dart_hw_sync_locked\<close> copies, in the order of its loops.
\<close>

definition slot_pairs :: "apple_dart \<Rightarrow> nat \<Rightarrow> nat \<Rightarrow> (nat \<times> nat) list" where
  "slot_pairs dt sid idx =
     (case locked_ttbr dt sid idx of
        None \<Rightarrow> []
      | Some l \<Rightarrow> (case shadow_ttbr dt sid idx of None \<Rightarrow> [] | Some p \<Rightarrow> [(l, p)]))"

definition sync_pairs :: "apple_dart \<Rightarrow> sidmap_t \<Rightarrow> (nat \<times> nat) list" where
  "sync_pairs dt m =
     concat (map (\<lambda>sid. concat (map (slot_pairs dt sid) [0..<ttbr_count (hw dt)]))
               (for_each_set_bit m (unat (num_streams dt))))"

definition ranges_disjoint :: "nat \<Rightarrow> nat \<Rightarrow> nat \<Rightarrow> bool" where
  "ranges_disjoint a b n = (a + n \<le> b \<or> b + n \<le> a)"

text \<open>
  The mapped tables do not interfere: no locked table overlaps a shadow table, and two
  locked tables either do not overlap or are the same table with the same shadow (two
  streams that share one table).
\<close>

definition tables_separate :: "apple_dart \<Rightarrow> sidmap_t \<Rightarrow> bool" where
  "tables_separate dt m =
     (let n = unat (pgsize dt) div 8; ps = sync_pairs dt m
      in list_all (\<lambda>(l, p). list_all (\<lambda>(l', p').
           ranges_disjoint l p' n \<and> (ranges_disjoint l l' n \<or> (l = l' \<and> p = p'))) ps) ps)"

definition copy_pairs :: "nat \<Rightarrow> (nat \<times> nat) list \<Rightarrow> kstate \<Rightarrow> kstate" where
  "copy_pairs n ps s = fold (\<lambda>(l, p). fold (copy_entry l p) [0..<n]) ps s"

text \<open>
  The events of one iteration of \<^verbatim>\<open>apple_dart_hw_clear_locked_ttbr\<close>, read off the
  pointers the unit holds for the stream and slot.
\<close>

definition slot_events :: "apple_dart \<Rightarrow> nat \<Rightarrow> nat \<Rightarrow> kevent list" where
  "slot_events dt idx sid =
     (case locked_ttbr dt sid idx of
        None \<Rightarrow> []
      | Some l \<Rightarrow> [MEMSET l (unat (pgsize dt)), MEMUNMAP l]) @
     (case shadow_ttbr dt sid idx of None \<Rightarrow> [] | Some p \<Rightarrow> [MEMUNMAP p])"

text \<open>
  The page-size test of \<^verbatim>\<open>apple_dart_of_xlate\<close> passes: the config has no unit in
  slot 0, or that unit has the page size of the specifier's unit.
\<close>

definition pgsize_matches :: "(nat \<Rightarrow> apple_dart) \<Rightarrow> apple_dart_master_cfg \<Rightarrow> nat \<Rightarrow> bool" where
  "pgsize_matches ds c d =
     (case dart (stream_maps c 0) of
        None \<Rightarrow> True
      | Some cfg_dart \<Rightarrow> pgsize (ds cfg_dart) = pgsize (ds d))"

text \<open>Slot \<open>i\<close> holds unit \<open>d\<close> and has the bit of \<open>sid\<close> set on top of its bitmap.\<close>

definition put_sid ::
  "nat \<Rightarrow> nat \<Rightarrow> nat \<Rightarrow> (nat \<Rightarrow> apple_dart_stream_map) \<Rightarrow> (nat \<Rightarrow> apple_dart_stream_map)" where
  "put_sid i d sid maps = maps(i := \<lparr>dart = Some d, sidmap = set_bit sid (sidmap (maps i))\<rparr>)"

text \<open>The return code and the event log of a call that returned.\<close>

definition returned :: "(fault + int \<times> 'd \<times> kstate) option \<Rightarrow> (int \<times> kevent list) option" where
  "returned r = (case r of Some (Inr (ret, dd, s)) \<Rightarrow> Some (ret, klog s) | _ \<Rightarrow> None)"

text \<open>The state in which \<^verbatim>\<open>apple_dart_finalize_domain\<close> holds the init mutex and has read the flag.\<close>

definition under_init_lock :: "kstate \<Rightarrow> kstate" where
  "under_init_lock s = log_event READ_FINALIZED (log_event MUTEX_LOCK s)"

subsection \<open>Example units\<close>

text \<open>
  An unlocked T8110 unit with 16 streams and 16 KiB pages, all registers 0, and a
  kernel state in which every unit address holds it.
\<close>

definition ex_dart :: apple_dart where
  "ex_dart = \<lparr>hw = apple_dart_hw_t8110, regs = (\<lambda>off. 0), ias = 42, oas = 42,
     pgsize = 0x4000, num_streams = 16, supports_bypass = True, locked = False,
     four_level = True, dma_min = 0, dma_max = DMA_BIT_MASK 42,
     locked_ttbr = (\<lambda>sid idx. None), shadow_ttbr = (\<lambda>sid idx. None)\<rparr>"

definition ex_state :: kstate where
  "ex_state = \<lparr>darts = (\<lambda>d. ex_dart), kmem = (\<lambda>a. 0), klog = []\<rparr>"

text \<open>
  A locked unit whose stream 0 has slot 0 mapped: the locked table at cell 100, its
  shadow at cell 4000, with one recognisable entry in each.
\<close>

definition ex_locked_dart :: apple_dart where
  "ex_locked_dart = ex_dart\<lparr>locked := True,
     locked_ttbr := (\<lambda>sid idx. if sid = 0 \<and> idx = 0 then Some 100 else None),
     shadow_ttbr := (\<lambda>sid idx. if sid = 0 \<and> idx = 0 then Some 4000 else None)\<rparr>"

definition ex_locked_state :: kstate where
  "ex_locked_state = \<lparr>darts = (\<lambda>d. ex_locked_dart),
     kmem = (\<lambda>a. if a = 100 then 0xBEEF else if a = 4000 then 0xDEAD else 0), klog = []\<rparr>"

text \<open>
  A stand-in for the page-table engine, to have a table to run the driver on: the
  table is a list of (IOVA, physical address) pairs, one per call of \<open>map_pages\<close>.
\<close>

definition ex_ops :: "(u64 \<times> u64) list io_pgtable_ops" where
  "ex_ops = \<lparr>
     map_pages = (\<lambda>t iova paddr pgsz pgcount prot gfpf mapped.
                    (0, mapped + pgsz * pgcount, (iova, paddr) # t)),
     unmap_pages = (\<lambda>t iova pgsz pgcount. (pgsz * pgcount, filter (\<lambda>e. fst e \<noteq> iova) t)),
     iova_to_phys = (\<lambda>t iova. case map_of t iova of None \<Rightarrow> 0 | Some p \<Rightarrow> p)\<rparr>"

definition ex_pgtbl_cfg :: io_pgtable_cfg where
  "ex_pgtbl_cfg = \<lparr>pgsize_bitmap = 0x4000, cfg_ias = 36, cfg_oas = 42, coherent_walk = True,
     ttbr_cfg = (\<lambda>i. 0), n_ttbrs = 1, n_levels = 3\<rparr>"

text \<open>A finalized domain with a 36-bit mask and one page mapped at IOVA 0x4000.\<close>

definition ex_domain :: "(u64 \<times> u64) list apple_dart_domain" where
  "ex_domain = kzalloc_domain\<lparr>
     pgtbl_ops := Some \<lparr>pt_ops = ex_ops, pt_cfg = ex_pgtbl_cfg, pt_tbl = [(0x4000, 0x80000)]\<rparr>,
     finalized := True, dom_mask := 0xFFFFFFFFF\<rparr>"

text \<open>
  Two units for a device: unit 0 is the example unit; unit 1 (and every other address)
  has 4 KiB pages and no bypass support. \<open>ex_cfg\<close> is the config of a device whose
  one specifier so far named unit 0 and stream 1.
\<close>

definition ex_units :: "nat \<Rightarrow> apple_dart" where
  "ex_units d = (if d = 0 then ex_dart else ex_dart\<lparr>pgsize := 0x1000, supports_bypass := False\<rparr>)"

definition ex_cfg :: apple_dart_master_cfg where
  "ex_cfg = \<lparr>cfg_supports_bypass = True,
             stream_maps = put_sid 0 0 1 (stream_maps kzalloc_master_cfg)\<rparr>"

text \<open>
  A device with two units: unit 0 is the example unit, unit 1 the same hardware in the
  locked state. \<open>ex_two_cfg\<close> is the config after the specifiers (unit 0, stream 1)
  and (unit 1, stream 2).
\<close>

definition ex_two_units :: kstate where
  "ex_two_units = \<lparr>darts = (\<lambda>d. if d = 1 then ex_dart\<lparr>locked := True\<rparr> else ex_dart),
     kmem = (\<lambda>a. 0), klog = []\<rparr>"

definition ex_two_cfg :: apple_dart_master_cfg where
  "ex_two_cfg = \<lparr>cfg_supports_bypass = True,
                 stream_maps = put_sid 1 1 2 (stream_maps ex_cfg)\<rparr>"

text \<open>
  A stand-in for \<^verbatim>\<open>alloc_io_pgtable_ops\<close> that always succeeds: one table root, three
  levels up to 36 bits of input address and four above, an empty table.
\<close>

definition ex_alloc ::
  "io_pgtable_fmt \<Rightarrow> io_pgtable_cfg \<Rightarrow> (io_pgtable_cfg \<times> (u64 \<times> u64) list io_pgtable) option" where
  "ex_alloc f pc =
     (let pc2 = pc\<lparr>n_ttbrs := 1, n_levels := (if cfg_ias pc > 36 then 4 else 3)\<rparr>
      in Some (pc2, \<lparr>pt_ops = ex_ops, pt_cfg = pc2, pt_tbl = []\<rparr>))"

text \<open>
  A locked T8110 unit as the boot loader left it: stream 1 has a valid TTBR and a TCR
  without the four-level bit, the unit decodes 42 bits, and the firmware's DMA range is
  the low 40 bits.
\<close>

definition ex_locked3_dart :: apple_dart where
  "ex_locked3_dart = ex_dart\<lparr>locked := True, dma_max := 0xFFFFFFFFFF,
     regs := (\<lambda>off. if off = 0x1404 then 1 else 0)\<rparr>"

definition ex_locked3_state :: kstate where
  "ex_locked3_state = \<lparr>darts = (\<lambda>d. ex_locked3_dart), kmem = (\<lambda>a. 0), klog = []\<rparr>"

section \<open>Properties\<close>

subsection \<open>Register writes\<close>

lemma writel_other [simp]:
  "klog (writel v d off s) = klog s"
  "kmem (writel v d off s) = kmem s"
  by (simp_all add: writel_def)

lemma writel_fields [simp]:
  "hw (darts (writel v d off s) e) = hw (darts s e)"
  "num_streams (darts (writel v d off s) e) = num_streams (darts s e)"
  "locked (darts (writel v d off s) e) = locked (darts s e)"
  "supports_bypass (darts (writel v d off s) e) = supports_bypass (darts s e)"
  by (simp_all add: writel_def)

lemma writel_regs:
  "regs (darts (writel v d off s) e) a =
     (if e = d \<and> a = off then v else regs (darts s e) a)"
  by (simp add: writel_def)

lemma fold_writel_regs:
  "regs (darts (fold (\<lambda>x. writel v d (f x)) xs s) e) a =
     (if e = d \<and> a \<in> f ` set xs then v else regs (darts s e) a)"
  by (induction xs arbitrary: s) (auto simp: writel_regs)

lemma fold_writel_fields [simp]:
  "hw (darts (fold (\<lambda>x. writel v d (f x)) xs s) e) = hw (darts s e)"
  "num_streams (darts (fold (\<lambda>x. writel v d (f x)) xs s) e) = num_streams (darts s e)"
  "locked (darts (fold (\<lambda>x. writel v d (f x)) xs s) e) = locked (darts s e)"
  "supports_bypass (darts (fold (\<lambda>x. writel v d (f x)) xs s) e) = supports_bypass (darts s e)"
  by (induction xs arbitrary: s) auto

lemma fold_writel_log [simp]:
  "klog (fold (\<lambda>x. writel v d (f x)) xs s) = klog s"
  by (induction xs arbitrary: s) auto

lemma WARN_ON_darts [simp]: "darts (WARN_ON c s) = darts s"
  by (simp add: WARN_ON_def)

lemma WARN_ON_kmem [simp]: "kmem (WARN_ON c s) = kmem s"
  by (simp add: WARN_ON_def)

lemma set_for_each_set_bit:
  "set (for_each_set_bit m n) = {sid. sid < n \<and> bit m sid}"
  by (auto simp: for_each_set_bit_def)

lemma distinct_for_each_set_bit: "distinct (for_each_set_bit m n)"
  by (simp add: for_each_set_bit_def)

lemma tcr_after_disable_dma:
  assumes "bit m sid" and "sid < unat (num_streams (darts s d))"
  shows "regs (darts (apple_dart_hw_disable_dma d m s) d) (DART_TCR (darts s d) sid) =
           tcr_disabled (hw (darts s d))"
  using assms
  by (simp add: apple_dart_hw_disable_dma_def Let_def fold_writel_regs set_for_each_set_bit)

lemma enable_bypass_static:
  "hw (darts (apple_dart_hw_enable_bypass d m s) e) = hw (darts s e)"
  "num_streams (darts (apple_dart_hw_enable_bypass d m s) e) = num_streams (darts s e)"
  "locked (darts (apple_dart_hw_enable_bypass d m s) e) = locked (darts s e)"
  "supports_bypass (darts (apple_dart_hw_enable_bypass d m s) e) = supports_bypass (darts s e)"
  by (simp_all add: apple_dart_hw_enable_bypass_def Let_def)

lemma DART_TCR_hw: "hw a = hw b \<Longrightarrow> DART_TCR a sid = DART_TCR b sid"
  by (simp add: DART_TCR_def)

lemma hw_tables_disabled:
  "h \<in> {apple_dart_hw_t8103, apple_dart_hw_t8103_usb4, apple_dart_hw_t6000, apple_dart_hw_t8110}
   \<Longrightarrow> tcr_disabled h AND (tcr_enabled h OR tcr_bypass h) = 0"
  by (auto simp: apple_dart_hw_t8103_def apple_dart_hw_t8103_usb4_def apple_dart_hw_t6000_def
        apple_dart_hw_t8110_def)

text \<open>
  Claim C8. On a probed unit (at most \<open>DART_MAX_STREAMS\<close> streams), for every stream
  selected by the bitmap, enabling bypass and then disabling DMA leaves the stream's
  TCR register equal to the layout's disabled value: the later write replaces the
  earlier one, the two values are not merged. For each of the four register layouts of
  the driver that value has neither the translate-enable bit nor a bypass bit set.
\<close>

theorem bypass_then_disable_dma_tcr:
  assumes "unat (num_streams (darts s d)) \<le> DART_MAX_STREAMS"
    and "bit m sid" and "sid < unat (num_streams (darts s d))"
  shows "readl d (DART_TCR (darts s d) sid)
           (apple_dart_hw_disable_dma d m (apple_dart_hw_enable_bypass d m s)) =
         tcr_disabled (hw (darts s d)) \<and>
         (hw (darts s d) \<in> {apple_dart_hw_t8103, apple_dart_hw_t8103_usb4,
                              apple_dart_hw_t6000, apple_dart_hw_t8110} \<longrightarrow>
          readl d (DART_TCR (darts s d) sid)
            (apple_dart_hw_disable_dma d m (apple_dart_hw_enable_bypass d m s)) AND
          (tcr_enabled (hw (darts s d)) OR tcr_bypass (hw (darts s d))) = 0)"
proof -
  let ?s1 = "apple_dart_hw_enable_bypass d m s"
  have tcr: "DART_TCR (darts ?s1 d) sid = DART_TCR (darts s d) sid"
    by (rule DART_TCR_hw) (simp add: enable_bypass_static)
  have "regs (darts (apple_dart_hw_disable_dma d m ?s1) d) (DART_TCR (darts ?s1 d) sid) =
          tcr_disabled (hw (darts ?s1 d))"
    using assms by (intro tcr_after_disable_dma) (simp_all add: enable_bypass_static)
  then have val: "readl d (DART_TCR (darts s d) sid) (apple_dart_hw_disable_dma d m ?s1) =
          tcr_disabled (hw (darts s d))"
    by (simp add: readl_def tcr enable_bypass_static)
  show ?thesis
    using val hw_tables_disabled [of "hw (darts s d)"] by simp
qed

theorem bypass_then_disable_dma_tcr_witness:
  "readl 0 (DART_TCR (darts ex_state 0) 3)
     (apple_dart_hw_disable_dma 0 8 (apple_dart_hw_enable_bypass 0 8 ex_state)) = 0 \<and>
   tcr_bypass (hw (darts ex_state 0)) \<noteq> 0"
proof -
  have b: "unat (num_streams (darts ex_state 0)) \<le> DART_MAX_STREAMS"
    by (simp add: ex_state_def ex_dart_def DART_MAX_STREAMS_def)
  have m: "bit (8 :: sidmap_t) 3"
    by (simp add: bit_numeral_iff bit_iff_odd)
  have n: "3 < unat (num_streams (darts ex_state 0))"
    by (simp add: ex_state_def ex_dart_def)
  have h: "hw (darts ex_state 0) = apple_dart_hw_t8110"
    by (simp add: ex_state_def ex_dart_def)
  have d: "tcr_disabled apple_dart_hw_t8110 = 0" "tcr_bypass apple_dart_hw_t8110 \<noteq> 0"
    by (simp_all add: apple_dart_hw_t8110_def DART_T8110_TCR_BYPASS_DAPF_def
          DART_T8110_TCR_BYPASS_DART_def BIT_def)
  show ?thesis
    using bypass_then_disable_dma_tcr [OF b m n] by (simp add: h d)
qed

subsection \<open>Synchronising the locked table with its shadow\<close>

lemma copy_entry_kmem:
  "kmem (copy_entry l p e s) a = (if a = l + e then kmem s (p + e) else kmem s a)"
  by (simp add: copy_entry_def)

lemma copy_table_kmem:
  "ranges_disjoint l p n \<Longrightarrow>
   kmem (fold (copy_entry l p) [0..<n] s) a =
     (if l \<le> a \<and> a < l + n then kmem s (p + (a - l)) else kmem s a)"
proof (induction n arbitrary: a)
  case 0
  then show ?case by auto
next
  case (Suc n)
  from Suc.prems have d: "ranges_disjoint l p n"
    by (auto simp: ranges_disjoint_def)
  from Suc.prems have out: "\<not> (l \<le> p + n \<and> p + n < l + n)"
    by (auto simp: ranges_disjoint_def)
  show ?case
    using Suc.IH [OF d] out by (auto simp: copy_entry_kmem)
qed

lemma sync_slot_pairs:
  "sync_slot dt sid idx s = copy_pairs (unat (pgsize dt) div 8) (slot_pairs dt sid idx) s"
  by (simp add: sync_slot_def slot_pairs_def copy_pairs_def split: option.splits)

lemma copy_pairs_append:
  "copy_pairs n (ps @ qs) s = copy_pairs n qs (copy_pairs n ps s)"
  by (simp add: copy_pairs_def)

lemma fold_copy_pairs_concat:
  "fold (\<lambda>x. copy_pairs n (f x)) xs s = copy_pairs n (concat (map f xs)) s"
  by (induction xs arbitrary: s) (simp_all add: copy_pairs_append, simp add: copy_pairs_def)

lemma sync_is_copy_pairs:
  "fold (\<lambda>sid. fold (sync_slot dt sid) idxs) sids s =
   copy_pairs (unat (pgsize dt) div 8)
     (concat (map (\<lambda>sid. concat (map (slot_pairs dt sid) idxs)) sids)) s"
proof -
  have inner: "\<And>sid t. fold (sync_slot dt sid) idxs t =
      copy_pairs (unat (pgsize dt) div 8) (concat (map (slot_pairs dt sid) idxs)) t"
    using fold_copy_pairs_concat [of "unat (pgsize dt) div 8" "slot_pairs dt _" idxs]
    by (simp add: sync_slot_pairs [abs_def])
  show ?thesis
    using fold_copy_pairs_concat
      [of "unat (pgsize dt) div 8" "\<lambda>sid. concat (map (slot_pairs dt sid) idxs)" sids s]
    by (simp add: inner [abs_def])
qed

lemma copy_pairs_frame:
  "\<forall>(l, p) \<in> set ps. ranges_disjoint l p n \<and> \<not> (l \<le> a \<and> a < l + n) \<Longrightarrow>
   kmem (copy_pairs n ps s) a = kmem s a"
proof (induction ps arbitrary: s)
  case Nil
  then show ?case by (simp add: copy_pairs_def)
next
  case (Cons x ps)
  obtain l p where x: "x = (l, p)" by (cases x)
  have "kmem (copy_pairs n (x # ps) s) a = kmem (fold (copy_entry l p) [0..<n] s) a"
    using Cons.IH [of "fold (copy_entry l p) [0..<n] s"] Cons.prems
    by (simp add: copy_pairs_def x)
  also have "\<dots> = kmem s a"
    using Cons.prems by (auto simp: x copy_table_kmem)
  finally show ?case .
qed

lemma copy_pairs_result:
  assumes sep: "\<forall>(l, p) \<in> set ps. \<forall>(l', p') \<in> set ps.
            ranges_disjoint l p' n \<and> (ranges_disjoint l l' n \<or> (l = l' \<and> p = p'))"
    and mem: "(l, p) \<in> set ps" and e: "e < n"
  shows "kmem (copy_pairs n ps s) (l + e) = kmem s (p + e)"
  using sep mem
proof (induction ps arbitrary: s)
  case Nil
  then show ?case by simp
next
  case (Cons x ps)
  obtain l0 p0 where x: "x = (l0, p0)" by (cases x)
  let ?s1 = "fold (copy_entry l0 p0) [0..<n] s"
  have unfold: "copy_pairs n (x # ps) s = copy_pairs n ps ?s1"
    by (simp add: copy_pairs_def x)
  have d0: "ranges_disjoint l0 p0 n"
    using Cons.prems(1) by (auto simp: x)
  have sep': "\<forall>(l, p) \<in> set ps. \<forall>(l', p') \<in> set ps.
            ranges_disjoint l p' n \<and> (ranges_disjoint l l' n \<or> (l = l' \<and> p = p'))"
    using Cons.prems(1) by auto
  show ?case
  proof (cases "(l, p) \<in> set ps")
    case True
    have "ranges_disjoint l0 p n"
      using Cons.prems(1) True by (auto simp: x)
    then have "kmem ?s1 (p + e) = kmem s (p + e)"
      using e d0 by (auto simp: copy_table_kmem ranges_disjoint_def)
    then show ?thesis
      using Cons.IH [OF sep' True, of ?s1] by (simp add: unfold)
  next
    case False
    then have eq: "l = l0" "p = p0"
      using Cons.prems(2) by (auto simp: x)
    have "\<forall>(l', p') \<in> set ps. ranges_disjoint l' p' n \<and> \<not> (l' \<le> l + e \<and> l + e < l' + n)"
    proof (clarify, rule conjI)
      fix l' p' assume in': "(l', p') \<in> set ps"
      show "ranges_disjoint l' p' n"
        using sep' in' by auto
      have "ranges_disjoint l0 l' n \<or> (l0 = l' \<and> p0 = p')"
        using Cons.prems(1) in' by (auto simp: x)
      then have "ranges_disjoint l0 l' n"
        using False in' eq by auto
      then show "\<not> (l' \<le> l + e \<and> l + e < l' + n)"
        using e eq by (auto simp: ranges_disjoint_def)
    qed
    then have "kmem (copy_pairs n ps ?s1) (l + e) = kmem ?s1 (l + e)"
      by (rule copy_pairs_frame)
    also have "\<dots> = kmem s (p + e)"
      using d0 e eq by (simp add: copy_table_kmem)
    finally show ?thesis by (simp add: unfold)
  qed
qed

lemma sync_locked_state:
  "snd (apple_dart_hw_sync_locked d m s) =
     copy_pairs (unat (pgsize (darts s d)) div 8) (sync_pairs (darts s d) m)
       (WARN_ON (\<not> locked (darts s d)) s)"
  by (simp add: apple_dart_hw_sync_locked_def Let_def sync_is_copy_pairs sync_pairs_def)

lemma sync_pairs_member:
  assumes "bit m sid" and "sid < unat (num_streams dt)" and "idx < ttbr_count (hw dt)"
    and "locked_ttbr dt sid idx = Some l" and "shadow_ttbr dt sid idx = Some p"
  shows "(l, p) \<in> set (sync_pairs dt m)"
proof -
  have "sid \<in> set (for_each_set_bit m (unat (num_streams dt)))"
    using assms by (simp add: set_for_each_set_bit)
  moreover have "(l, p) \<in> set (slot_pairs dt sid idx)"
    using assms by (simp add: slot_pairs_def)
  moreover have "idx \<in> {0..<ttbr_count (hw dt)}"
    using assms(3) by simp
  ultimately have "\<exists>x \<in> set (for_each_set_bit m (unat (num_streams dt))).
      \<exists>i \<in> set [0..<ttbr_count (hw dt)]. (l, p) \<in> set (slot_pairs dt x i)"
    by (intro bexI [of _ sid] bexI [of _ idx]) simp_all
  then show ?thesis
    by (simp add: sync_pairs_def)
qed

text \<open>
  Claim C2. On a unit within its array bounds whose mapped tables do not interfere,
  one call of the sync operation returns 0 and leaves, for every stream selected by the
  bitmap and every table slot with both mappings present, each entry of the locked
  table equal to the entry of the shadow table at the same index; the shadow table
  keeps the content it had before the call, whatever was written to it earlier.
\<close>

theorem sync_locked_copies_shadow:
  assumes "dart_in_bounds (darts s d)"
    and "tables_separate (darts s d) m"
    and "bit m sid" and "sid < unat (num_streams (darts s d))"
    and "idx < ttbr_count (hw (darts s d))"
    and "locked_ttbr (darts s d) sid idx = Some l"
    and "shadow_ttbr (darts s d) sid idx = Some p"
    and "entry < unat (pgsize (darts s d)) div 8"
  shows "fst (apple_dart_hw_sync_locked d m s) = 0 \<and>
         kmem (snd (apple_dart_hw_sync_locked d m s)) (l + entry) =
           kmem (snd (apple_dart_hw_sync_locked d m s)) (p + entry) \<and>
         kmem (snd (apple_dart_hw_sync_locked d m s)) (p + entry) = kmem s (p + entry)"
proof -
  let ?dt = "darts s d"
  let ?n = "unat (pgsize ?dt) div 8"
  let ?ps = "sync_pairs ?dt m"
  let ?s1 = "WARN_ON (\<not> locked ?dt) s"
  have mem: "(l, p) \<in> set ?ps"
    using assms(3-7) by (rule sync_pairs_member)
  have sep: "\<forall>(l, p) \<in> set ?ps. \<forall>(l', p') \<in> set ?ps.
            ranges_disjoint l p' ?n \<and> (ranges_disjoint l l' ?n \<or> (l = l' \<and> p = p'))"
    using assms(2) by (simp add: tables_separate_def Let_def list_all_iff)
  have locked_side: "kmem (copy_pairs ?n ?ps ?s1) (l + entry) = kmem ?s1 (p + entry)"
    using sep mem assms(8) by (rule copy_pairs_result)
  have "\<forall>(l', p') \<in> set ?ps. ranges_disjoint l' p' ?n \<and>
          \<not> (l' \<le> p + entry \<and> p + entry < l' + ?n)"
  proof (clarify, rule conjI)
    fix l' p' assume in': "(l', p') \<in> set ?ps"
    show "ranges_disjoint l' p' ?n"
      using sep in' by auto
    have "ranges_disjoint l' p ?n"
      using sep in' mem by auto
    then show "\<not> (l' \<le> p + entry \<and> p + entry < l' + ?n)"
      using assms(8) by (auto simp: ranges_disjoint_def)
  qed
  then have shadow_side: "kmem (copy_pairs ?n ?ps ?s1) (p + entry) = kmem ?s1 (p + entry)"
    by (rule copy_pairs_frame)
  have ret: "fst (apple_dart_hw_sync_locked d m s) = 0"
    by (simp add: apple_dart_hw_sync_locked_def Let_def)
  have st: "snd (apple_dart_hw_sync_locked d m s) = copy_pairs ?n ?ps ?s1"
    by (rule sync_locked_state)
  have "kmem ?s1 (p + entry) = kmem s (p + entry)"
    by simp
  then show ?thesis
    unfolding st using ret locked_side shadow_side by simp
qed

theorem sync_locked_copies_shadow_witness:
  "fst (apple_dart_hw_sync_locked 0 1 ex_locked_state) = 0 \<and>
   kmem (snd (apple_dart_hw_sync_locked 0 1 ex_locked_state)) 100 = 0xDEAD \<and>
   kmem (snd (apple_dart_hw_sync_locked 0 1 ex_locked_state)) 4000 = 0xDEAD"
proof -
  have dt: "darts ex_locked_state 0 = ex_locked_dart"
    by (simp add: ex_locked_state_def)
  have b: "dart_in_bounds (darts ex_locked_state 0)"
    by (simp add: dt dart_in_bounds_def ex_locked_dart_def ex_dart_def apple_dart_hw_t8110_def
          DART_MAX_STREAMS_def DART_MAX_TTBR_def)
  have ps: "sync_pairs ex_locked_dart 1 = [(100, 4000)]"
    by (simp add: sync_pairs_def slot_pairs_def for_each_set_bit_def ex_locked_dart_def
          ex_dart_def apple_dart_hw_t8110_def upt_conv_Cons bit_1_iff)
  have sep: "tables_separate (darts ex_locked_state 0) 1"
    by (simp add: dt tables_separate_def ps Let_def ranges_disjoint_def)
       (simp add: ex_locked_dart_def ex_dart_def)
  have m: "bit (1 :: sidmap_t) 0"
    by simp
  have n: "0 < unat (num_streams (darts ex_locked_state 0))"
    by (simp add: dt ex_locked_dart_def ex_dart_def)
  have i: "0 < ttbr_count (hw (darts ex_locked_state 0))"
    by (simp add: dt ex_locked_dart_def ex_dart_def apple_dart_hw_t8110_def)
  have l: "locked_ttbr (darts ex_locked_state 0) 0 0 = Some 100"
    by (simp add: dt ex_locked_dart_def)
  have p: "shadow_ttbr (darts ex_locked_state 0) 0 0 = Some 4000"
    by (simp add: dt ex_locked_dart_def)
  have e: "0 < unat (pgsize (darts ex_locked_state 0)) div 8"
    by (simp add: dt ex_locked_dart_def ex_dart_def)
  have v: "kmem ex_locked_state 4000 = 0xDEAD"
    by (simp add: ex_locked_state_def)
  show ?thesis
    using sync_locked_copies_shadow [OF b sep m n i l p e] by (simp add: v)
qed

subsection \<open>Clearing a locked slot\<close>

lemma memset0_fields [simp]:
  "darts (memset0 p n s) = darts s"
  "klog (memset0 p n s) = klog s @ [MEMSET p n]"
  by (simp_all add: memset0_def Let_def)

lemma memunmap_fields [simp]:
  "darts (devm_memunmap p s) = darts s"
  "kmem (devm_memunmap p s) = kmem s"
  "klog (devm_memunmap p s) = klog s @ [MEMUNMAP p]"
  by (simp_all add: devm_memunmap_def)

lemma set_locked_fields [simp]:
  "kmem (set_locked_ttbr d sid idx v s) = kmem s"
  "klog (set_locked_ttbr d sid idx v s) = klog s"
  "hw (darts (set_locked_ttbr d sid idx v s) e) = hw (darts s e)"
  "pgsize (darts (set_locked_ttbr d sid idx v s) e) = pgsize (darts s e)"
  "num_streams (darts (set_locked_ttbr d sid idx v s) e) = num_streams (darts s e)"
  "locked (darts (set_locked_ttbr d sid idx v s) e) = locked (darts s e)"
  "shadow_ttbr (darts (set_locked_ttbr d sid idx v s) e) = shadow_ttbr (darts s e)"
  "locked_ttbr (darts (set_locked_ttbr d sid idx v s) e) x y =
     (if e = d \<and> x = sid \<and> y = idx then v else locked_ttbr (darts s e) x y)"
  by (simp_all add: set_locked_ttbr_def)

lemma set_shadow_fields [simp]:
  "kmem (set_shadow_ttbr d sid idx v s) = kmem s"
  "klog (set_shadow_ttbr d sid idx v s) = klog s"
  "hw (darts (set_shadow_ttbr d sid idx v s) e) = hw (darts s e)"
  "pgsize (darts (set_shadow_ttbr d sid idx v s) e) = pgsize (darts s e)"
  "num_streams (darts (set_shadow_ttbr d sid idx v s) e) = num_streams (darts s e)"
  "locked (darts (set_shadow_ttbr d sid idx v s) e) = locked (darts s e)"
  "locked_ttbr (darts (set_shadow_ttbr d sid idx v s) e) = locked_ttbr (darts s e)"
  "shadow_ttbr (darts (set_shadow_ttbr d sid idx v s) e) x y =
     (if e = d \<and> x = sid \<and> y = idx then v else shadow_ttbr (darts s e) x y)"
  by (simp_all add: set_shadow_ttbr_def)

lemma clear_slot_log:
  "klog (clear_locked_slot d idx sid s) = klog s @ slot_events (darts s d) idx sid"
  by (simp add: clear_locked_slot_def slot_events_def Let_def split: option.splits)

lemma clear_slot_static [simp]:
  "hw (darts (clear_locked_slot d idx sid s) e) = hw (darts s e)"
  "pgsize (darts (clear_locked_slot d idx sid s) e) = pgsize (darts s e)"
  "num_streams (darts (clear_locked_slot d idx sid s) e) = num_streams (darts s e)"
  "locked (darts (clear_locked_slot d idx sid s) e) = locked (darts s e)"
  by (simp_all add: clear_locked_slot_def Let_def split: option.splits)

lemma clear_slot_pointers:
  "locked_ttbr (darts (clear_locked_slot d idx sid s) e) x y =
     (if e = d \<and> x = sid \<and> y = idx then None else locked_ttbr (darts s e) x y)"
  "shadow_ttbr (darts (clear_locked_slot d idx sid s) e) x y =
     (if e = d \<and> x = sid \<and> y = idx then None else shadow_ttbr (darts s e) x y)"
  by (simp_all add: clear_locked_slot_def Let_def split: option.splits)

lemma clear_slot_kmem:
  "kmem (clear_locked_slot d idx sid s) =
     (case locked_ttbr (darts s d) sid idx of
        None \<Rightarrow> kmem s
      | Some l \<Rightarrow> kmem (memset0 l (unat (pgsize (darts s d))) s))"
  by (simp add: clear_locked_slot_def Let_def split: option.splits)

lemma div8_round_up: "0 < n mod 8 \<Longrightarrow> n div 8 < (n + 7) div (8::nat)"
  by presburger

lemma memset0_frame:
  "\<not> (p \<le> a \<and> a < p + (n + 7) div 8) \<Longrightarrow> kmem (memset0 p n s) a = kmem s a"
  using div8_round_up [of n] by (auto simp: memset0_def Let_def)

lemma memset0_zero:
  "e < n div 8 \<Longrightarrow> kmem (memset0 p n s) (p + e) = 0"
  by (auto simp: memset0_def Let_def)

lemma memset0_keeps_zero:
  "kmem s a = 0 \<Longrightarrow> kmem (memset0 p n s) a = 0"
  by (auto simp: memset0_def Let_def)

lemma slot_events_cong:
  "locked_ttbr dt sid idx = locked_ttbr dt' sid idx \<Longrightarrow>
   shadow_ttbr dt sid idx = shadow_ttbr dt' sid idx \<Longrightarrow> pgsize dt = pgsize dt' \<Longrightarrow>
   slot_events dt idx sid = slot_events dt' idx sid"
  by (simp add: slot_events_def split: option.splits)

lemma fold_clear_static [simp]:
  "hw (darts (fold (clear_locked_slot d idx) xs s) e) = hw (darts s e)"
  "pgsize (darts (fold (clear_locked_slot d idx) xs s) e) = pgsize (darts s e)"
  "num_streams (darts (fold (clear_locked_slot d idx) xs s) e) = num_streams (darts s e)"
  "locked (darts (fold (clear_locked_slot d idx) xs s) e) = locked (darts s e)"
  by (induction xs arbitrary: s) simp_all

lemma fold_clear_pointers:
  "locked_ttbr (darts (fold (clear_locked_slot d idx) xs s) e) x y =
     (if e = d \<and> x \<in> set xs \<and> y = idx then None else locked_ttbr (darts s e) x y)"
  "shadow_ttbr (darts (fold (clear_locked_slot d idx) xs s) e) x y =
     (if e = d \<and> x \<in> set xs \<and> y = idx then None else shadow_ttbr (darts s e) x y)"
  by (induction xs arbitrary: s) (auto simp: clear_slot_pointers)

lemma fold_clear_log:
  "distinct xs \<Longrightarrow>
   klog (fold (clear_locked_slot d idx) xs s) =
     klog s @ concat (map (slot_events (darts s d) idx) xs)"
proof (induction xs arbitrary: s)
  case Nil
  then show ?case by simp
next
  case (Cons x xs)
  let ?s1 = "clear_locked_slot d idx x s"
  have same: "map (slot_events (darts ?s1 d) idx) xs = map (slot_events (darts s d) idx) xs"
  proof (rule map_cong [OF refl])
    fix y assume "y \<in> set xs"
    then have "y \<noteq> x" using Cons.prems by auto
    then show "slot_events (darts ?s1 d) idx y = slot_events (darts s d) idx y"
      by (intro slot_events_cong) (simp_all add: clear_slot_pointers)
  qed
  show ?case
    using Cons.IH [of ?s1] Cons.prems by (simp add: clear_slot_log same)
qed

lemma fold_clear_frame:
  "\<forall>x \<in> set xs. \<forall>l. locked_ttbr (darts s d) x idx = Some l \<longrightarrow>
       \<not> (l \<le> a \<and> a < l + (unat (pgsize (darts s d)) + 7) div 8) \<Longrightarrow>
   kmem (fold (clear_locked_slot d idx) xs s) a = kmem s a"
proof (induction xs arbitrary: s)
  case Nil
  then show ?case by simp
next
  case (Cons x xs)
  let ?s1 = "clear_locked_slot d idx x s"
  have step: "kmem ?s1 a = kmem s a"
    using Cons.prems by (auto simp: clear_slot_kmem memset0_frame split: option.splits)
  have "kmem (fold (clear_locked_slot d idx) xs ?s1) a = kmem ?s1 a"
  proof (rule Cons.IH)
    show "\<forall>x\<in>set xs. \<forall>l. locked_ttbr (darts ?s1 d) x idx = Some l \<longrightarrow>
       \<not> (l \<le> a \<and> a < l + (unat (pgsize (darts ?s1 d)) + 7) div 8)"
      using Cons.prems by (auto simp: clear_slot_pointers split: if_splits)
  qed
  then show ?case by (simp add: step)
qed

lemma fold_clear_keeps_zero:
  "kmem s a = 0 \<Longrightarrow> kmem (fold (clear_locked_slot d idx) xs s) a = 0"
proof (induction xs arbitrary: s)
  case Nil
  then show ?case by simp
next
  case (Cons x xs)
  have "kmem (clear_locked_slot d idx x s) a = 0"
    using Cons.prems by (simp add: clear_slot_kmem memset0_keeps_zero split: option.splits)
  then show ?case
    using Cons.IH by simp
qed

lemma fold_clear_zero:
  "distinct xs \<Longrightarrow> x \<in> set xs \<Longrightarrow> locked_ttbr (darts s d) x idx = Some l \<Longrightarrow>
   e < unat (pgsize (darts s d)) div 8 \<Longrightarrow>
   kmem (fold (clear_locked_slot d idx) xs s) (l + e) = 0"
proof (induction xs arbitrary: s)
  case Nil
  then show ?case by simp
next
  case (Cons y xs)
  let ?s1 = "clear_locked_slot d idx y s"
  show ?case
  proof (cases "y = x")
    case True
    have "kmem ?s1 (l + e) = 0"
      using Cons.prems True by (simp add: clear_slot_kmem memset0_zero)
    then show ?thesis
      by (simp add: fold_clear_keeps_zero)
  next
    case False
    then have "x \<in> set xs" using Cons.prems by auto
    moreover have "locked_ttbr (darts ?s1 d) x idx = Some l"
      using Cons.prems False by (simp add: clear_slot_pointers)
    ultimately show ?thesis
      using Cons.IH [of ?s1] Cons.prems by simp
  qed
qed

lemma WARN_ON_klog: "klog (WARN_ON c s) = klog s @ (if c then [WARN] else [])"
  by (simp add: WARN_ON_def)

lemma clear_locked_ttbr_snd:
  "snd (apple_dart_hw_clear_locked_ttbr d m idx s) =
     fold (clear_locked_slot d idx) (for_each_set_bit m (unat (num_streams (darts s d))))
       (WARN_ON (\<not> locked (darts s d)) s)"
  by (simp add: apple_dart_hw_clear_locked_ttbr_def Let_def)

lemma ex_locked_bits: "for_each_set_bit 1 (unat (num_streams ex_locked_dart)) = [0]"
  by (simp add: for_each_set_bit_def ex_locked_dart_def ex_dart_def upt_conv_Cons bit_1_iff)

text \<open>
  Claim C3, as the code has it. On a unit within its array bounds, clearing a table
  slot returns 0 and, for every stream selected by the bitmap: both pointers of the
  (stream, slot) pair are \<^verbatim>\<open>NULL\<close> afterwards; the locked (hardware-visible) table, if
  mapped, is zeroed over the page size and then unmapped, and the shadow mapping, if
  present, is unmapped after that, in this order for one stream after the other; every
  entry of the locked table reads 0; and every memory cell outside the zeroed locked
  tables, the shadow tables among them, keeps its value.
\<close>

theorem clear_locked_ttbr_zeroes_locked_table:
  assumes "dart_in_bounds (darts s d)"
    and "bit m sid" and "sid < unat (num_streams (darts s d))"
  shows "fst (apple_dart_hw_clear_locked_ttbr d m idx s) = 0 \<and>
         locked_ttbr (darts (snd (apple_dart_hw_clear_locked_ttbr d m idx s)) d) sid idx = None \<and>
         shadow_ttbr (darts (snd (apple_dart_hw_clear_locked_ttbr d m idx s)) d) sid idx = None \<and>
         klog (snd (apple_dart_hw_clear_locked_ttbr d m idx s)) =
           klog s @ (if locked (darts s d) then [] else [WARN]) @
           concat (map (slot_events (darts s d) idx)
                     (for_each_set_bit m (unat (num_streams (darts s d))))) \<and>
         (\<forall>l e. locked_ttbr (darts s d) sid idx = Some l \<and> e < unat (pgsize (darts s d)) div 8 \<longrightarrow>
                kmem (snd (apple_dart_hw_clear_locked_ttbr d m idx s)) (l + e) = 0) \<and>
         (\<forall>a. (\<forall>x l. bit m x \<and> x < unat (num_streams (darts s d)) \<and>
                       locked_ttbr (darts s d) x idx = Some l \<longrightarrow>
                       \<not> (l \<le> a \<and> a < l + (unat (pgsize (darts s d)) + 7) div 8)) \<longrightarrow>
              kmem (snd (apple_dart_hw_clear_locked_ttbr d m idx s)) a = kmem s a)"
proof -
  let ?dt = "darts s d"
  let ?xs = "for_each_set_bit m (unat (num_streams ?dt))"
  let ?s1 = "WARN_ON (\<not> locked ?dt) s"
  let ?s' = "fold (clear_locked_slot d idx) ?xs ?s1"
  have st: "snd (apple_dart_hw_clear_locked_ttbr d m idx s) = ?s'"
    by (rule clear_locked_ttbr_snd)
  have ret: "fst (apple_dart_hw_clear_locked_ttbr d m idx s) = 0"
    by (simp add: apple_dart_hw_clear_locked_ttbr_def Let_def)
  have in_xs: "sid \<in> set ?xs"
    using assms(2,3) by (simp add: set_for_each_set_bit)
  have ptrs: "locked_ttbr (darts ?s' d) sid idx = None" "shadow_ttbr (darts ?s' d) sid idx = None"
    using in_xs by (simp_all add: fold_clear_pointers)
  have log: "klog ?s' = klog s @ (if locked ?dt then [] else [WARN]) @
               concat (map (slot_events ?dt idx) ?xs)"
    using fold_clear_log [OF distinct_for_each_set_bit, of d idx m "unat (num_streams ?dt)" ?s1]
    by (simp add: WARN_ON_klog)
  have zero: "kmem ?s' (l + e) = 0"
    if "locked_ttbr ?dt sid idx = Some l" and "e < unat (pgsize ?dt) div 8" for l e
    using fold_clear_zero [OF distinct_for_each_set_bit in_xs, of ?s1 d idx l e] that by simp
  have frame: "kmem ?s' a = kmem s a"
    if "\<forall>x l. bit m x \<and> x < unat (num_streams ?dt) \<and> locked_ttbr ?dt x idx = Some l \<longrightarrow>
               \<not> (l \<le> a \<and> a < l + (unat (pgsize ?dt) + 7) div 8)" for a
  proof -
    have "kmem ?s' a = kmem ?s1 a"
      using that by (intro fold_clear_frame) (auto simp: set_for_each_set_bit)
    then show ?thesis by simp
  qed
  show ?thesis
    unfolding st using ret ptrs log zero frame by blast
qed


lemma ex_locked_clear_state:
  "snd (apple_dart_hw_clear_locked_ttbr 0 1 0 ex_locked_state) =
     clear_locked_slot 0 0 0 ex_locked_state"
proof -
  have dt: "darts ex_locked_state 0 = ex_locked_dart"
    by (simp add: ex_locked_state_def)
  have lk: "locked ex_locked_dart"
    by (simp add: ex_locked_dart_def)
  show ?thesis
    by (simp add: clear_locked_ttbr_snd dt ex_locked_bits lk WARN_ON_def)
qed

text \<open>
  The claim as worded has the shadow memory zeroed. On the example unit the shadow
  entry at cell 4000 survives the clear, the \<^verbatim>\<open>memset\<close> goes to the locked table at
  cell 100, and no \<^verbatim>\<open>memset\<close> of the shadow precedes its unmapping.
\<close>

theorem clear_locked_ttbr_shadow_counterexample:
  "kmem (snd (apple_dart_hw_clear_locked_ttbr 0 1 0 ex_locked_state)) 4000 = 0xDEAD \<and>
   kmem (snd (apple_dart_hw_clear_locked_ttbr 0 1 0 ex_locked_state)) 100 = 0 \<and>
   klog (snd (apple_dart_hw_clear_locked_ttbr 0 1 0 ex_locked_state)) =
     [MEMSET 100 0x4000, MEMUNMAP 100, MEMUNMAP 4000]"
proof -
  have dt: "darts ex_locked_state 0 = ex_locked_dart"
    by (simp add: ex_locked_state_def)
  have l: "locked_ttbr ex_locked_dart 0 0 = Some 100"
    and p: "shadow_ttbr ex_locked_dart 0 0 = Some 4000"
    and pg: "unat (pgsize ex_locked_dart) = 0x4000"
    by (simp_all add: ex_locked_dart_def ex_dart_def)
  have log: "klog (clear_locked_slot 0 0 0 ex_locked_state) =
      [MEMSET 100 0x4000, MEMUNMAP 100, MEMUNMAP 4000]"
    by (simp add: clear_slot_log slot_events_def dt l p pg) (simp add: ex_locked_state_def)
  have mem: "kmem (clear_locked_slot 0 0 0 ex_locked_state) =
      kmem (memset0 100 0x4000 ex_locked_state)"
    by (simp add: clear_slot_kmem dt l pg)
  have shadow: "kmem (memset0 100 0x4000 ex_locked_state) 4000 = 0xDEAD"
    by (simp add: memset0_def Let_def ex_locked_state_def)
  have tbl: "kmem (memset0 100 0x4000 ex_locked_state) 100 = 0"
    by (simp add: memset0_def Let_def ex_locked_state_def)
  show ?thesis
    by (simp add: ex_locked_clear_state log mem shadow tbl)
qed

theorem clear_locked_ttbr_zeroes_locked_table_witness:
  "locked_ttbr (darts (snd (apple_dart_hw_clear_locked_ttbr 0 1 0 ex_locked_state)) 0) 0 0 = None \<and>
   shadow_ttbr (darts (snd (apple_dart_hw_clear_locked_ttbr 0 1 0 ex_locked_state)) 0) 0 0 = None \<and>
   kmem (snd (apple_dart_hw_clear_locked_ttbr 0 1 0 ex_locked_state)) (100 + 2047) = 0 \<and>
   kmem (snd (apple_dart_hw_clear_locked_ttbr 0 1 0 ex_locked_state)) 4000 =
     kmem ex_locked_state 4000"
proof -
  have dt: "darts ex_locked_state 0 = ex_locked_dart"
    by (simp add: ex_locked_state_def)
  have b: "dart_in_bounds (darts ex_locked_state 0)"
    by (simp add: dt dart_in_bounds_def ex_locked_dart_def ex_dart_def apple_dart_hw_t8110_def
          DART_MAX_STREAMS_def DART_MAX_TTBR_def)
  have m: "bit (1 :: sidmap_t) 0"
    by simp
  have n: "0 < unat (num_streams (darts ex_locked_state 0))"
    by (simp add: dt ex_locked_dart_def ex_dart_def)
  have l: "locked_ttbr (darts ex_locked_state 0) 0 0 = Some 100"
    by (simp add: dt ex_locked_dart_def)
  have e: "2047 < unat (pgsize (darts ex_locked_state 0)) div 8"
    by (simp add: dt ex_locked_dart_def ex_dart_def)
  have out: "\<forall>x l. bit (1 :: sidmap_t) x \<and> x < unat (num_streams (darts ex_locked_state 0)) \<and>
               locked_ttbr (darts ex_locked_state 0) x 0 = Some l \<longrightarrow>
               \<not> (l \<le> 4000 \<and> 4000 < l + (unat (pgsize (darts ex_locked_state 0)) + 7) div 8)"
    by (auto simp: dt ex_locked_dart_def ex_dart_def split: if_splits)
  show ?thesis
    using clear_locked_ttbr_zeroes_locked_table [OF b m n, of 0] l e out by blast
qed

subsection \<open>Page operations of a paging domain\<close>

text \<open>
  Claim C9. For a paging domain whose page-table handle is absent (the domain has not
  been finalized), mapping a range returns \<^verbatim>\<open>-ENODEV\<close> and leaves the count behind
  \<^verbatim>\<open>mapped\<close> and the domain as they were, and the lookup of an IOVA returns 0 (it
  cannot change the domain); unmapping a range has no such test and calls through the
  absent handle.
\<close>

theorem unfinalized_domain_page_ops:
  assumes "pgtbl_ops dd = None"
  shows "apple_dart_map_pages dd iova paddr pgsz pgcount prot gfpf mapped = (- ENODEV, mapped, dd) \<and>
         apple_dart_iova_to_phys dd iova = 0 \<and>
         apple_dart_unmap_pages dd iova pgsz pgcount = Inl NULL_DEREF"
  using assms
  by (simp add: apple_dart_map_pages_def apple_dart_iova_to_phys_def apple_dart_unmap_pages_def)

theorem unfinalized_domain_page_ops_witness:
  "apple_dart_map_pages (kzalloc_domain :: (u64 \<times> u64) list apple_dart_domain)
     0x4000 0x80000 0x4000 1 3 GFP_KERNEL 0 = (- 19, 0, kzalloc_domain) \<and>
   apple_dart_iova_to_phys (kzalloc_domain :: (u64 \<times> u64) list apple_dart_domain) 0x4000 = 0 \<and>
   apple_dart_unmap_pages (kzalloc_domain :: (u64 \<times> u64) list apple_dart_domain)
     0x4000 0x4000 1 = Inl NULL_DEREF"
proof -
  have h: "pgtbl_ops (kzalloc_domain :: (u64 \<times> u64) list apple_dart_domain) = None"
    by (simp add: kzalloc_domain_def)
  show ?thesis
    using unfinalized_domain_page_ops [OF h, where iova = "0x4000" and paddr = "0x80000"
        and pgsz = "0x4000" and pgcount = 1 and prot = 3 and gfpf = GFP_KERNEL and mapped = 0]
    by (simp add: ENODEV_def)
qed

text \<open>
  Claim C10. Mapping, unmapping and looking up hand the page-table engine the IOVA
  ANDed with the domain's mask. So two IOVAs that agree on every bit of the mask give,
  with the other arguments equal, the same return values and the same domain
  afterwards, page table included.
\<close>

theorem page_ops_mask_iova:
  assumes "iova1 AND dom_mask dd = iova2 AND dom_mask dd"
  shows "apple_dart_map_pages dd iova1 paddr pgsz pgcount prot gfpf mapped =
           apple_dart_map_pages dd iova2 paddr pgsz pgcount prot gfpf mapped \<and>
         apple_dart_unmap_pages dd iova1 pgsz pgcount = apple_dart_unmap_pages dd iova2 pgsz pgcount \<and>
         apple_dart_iova_to_phys dd iova1 = apple_dart_iova_to_phys dd iova2 \<and>
         (\<forall>pt. pgtbl_ops dd = Some pt \<longrightarrow>
            apple_dart_iova_to_phys dd iova1 =
              iova_to_phys (pt_ops pt) (pt_tbl pt) (iova1 AND dom_mask dd) \<and>
            fst (apple_dart_map_pages dd iova1 paddr pgsz pgcount prot gfpf mapped) =
              fst (map_pages (pt_ops pt) (pt_tbl pt) (iova1 AND dom_mask dd) paddr pgsz pgcount
                     prot gfpf mapped) \<and>
            map_sum id fst (apple_dart_unmap_pages dd iova1 pgsz pgcount) =
              Inr (fst (unmap_pages (pt_ops pt) (pt_tbl pt) (iova1 AND dom_mask dd) pgsz pgcount)))"
  using assms
  by (auto simp: apple_dart_map_pages_def apple_dart_iova_to_phys_def apple_dart_unmap_pages_def
        split: option.splits prod.splits)

theorem page_ops_mask_iova_witness:
  "apple_dart_iova_to_phys ex_domain 0x1000004000 = 0x80000 \<and>
   apple_dart_map_pages ex_domain 0x1000004000 0x90000 0x4000 1 3 GFP_KERNEL 0 =
     apple_dart_map_pages ex_domain 0x4000 0x90000 0x4000 1 3 GFP_KERNEL 0 \<and>
   apple_dart_unmap_pages ex_domain 0x1000004000 0x4000 1 =
     apple_dart_unmap_pages ex_domain 0x4000 0x4000 1"
proof -
  have m: "dom_mask ex_domain = 0xFFFFFFFFF"
    by (simp add: ex_domain_def)
  have h: "(0x1000004000 :: u64) AND dom_mask ex_domain = 0x4000 AND dom_mask ex_domain"
    by (simp add: m)
  have v: "apple_dart_iova_to_phys ex_domain 0x4000 = 0x80000"
    by (simp add: apple_dart_iova_to_phys_def ex_domain_def ex_ops_def)
  show ?thesis
    using page_ops_mask_iova [OF h, where paddr = "0x90000" and pgsz = "0x4000" and pgcount = 1
        and prot = 3 and gfpf = GFP_KERNEL and mapped = 0] v by simp
qed

subsection \<open>Firmware specifiers\<close>

lemma find_slot_Some:
  "find P [0..<MAX_DARTS_PER_DEVICE] = Some i \<longleftrightarrow>
     i < MAX_DARTS_PER_DEVICE \<and> P i \<and> (\<forall>j<i. \<not> P j)"
  by (auto simp: find_Some_iff)

lemma find_slot_None:
  "find P [0..<MAX_DARTS_PER_DEVICE] = None \<longleftrightarrow> (\<forall>i<MAX_DARTS_PER_DEVICE. \<not> P i)"
  by (auto simp: find_None_iff)

lemma stream_map_update_both:
  "(r :: apple_dart_stream_map)\<lparr>dart := a, sidmap := b\<rparr> = \<lparr>dart = a, sidmap = b\<rparr>"
  by (cases r) simp

lemma cfg_set_bit_ok:
  assumes "0 \<le> sid" and "sid < int DART_MAX_STREAMS"
  shows "cfg_set_bit sid i c =
      Inr (c\<lparr>stream_maps := (stream_maps c)
             (i := (stream_maps c i)\<lparr>sidmap := set_bit (nat sid) (sidmap (stream_maps c i))\<rparr>)\<rparr>)"
  using assms by (simp add: cfg_set_bit_def)

lemma of_xlate_slots_reuse:
  assumes "0 \<le> sid" and "sid < int DART_MAX_STREAMS"
    and "i < MAX_DARTS_PER_DEVICE" and "dart (stream_maps c i) = Some d"
    and "\<forall>j<i. dart (stream_maps c j) \<noteq> Some d"
  shows "of_xlate_slots c d sid =
           Inr (0, Some (c\<lparr>stream_maps := put_sid i d (nat sid) (stream_maps c)\<rparr>))"
proof -
  have f: "find (\<lambda>i. dart (stream_maps c i) = Some d) [0..<MAX_DARTS_PER_DEVICE] = Some i"
    using assms(3-5) by (simp add: find_slot_Some)
  have "(stream_maps c)(i := (stream_maps c i)\<lparr>sidmap := set_bit (nat sid) (sidmap (stream_maps c i))\<rparr>)
      = put_sid i d (nat sid) (stream_maps c)"
    using assms(4) by (simp add: put_sid_def fun_eq_iff)
  then show ?thesis
    by (simp add: of_xlate_slots_def f cfg_set_bit_ok [OF assms(1,2)])
qed

lemma of_xlate_slots_free:
  assumes "0 \<le> sid" and "sid < int DART_MAX_STREAMS"
    and "\<forall>j<MAX_DARTS_PER_DEVICE. dart (stream_maps c j) \<noteq> Some d"
    and "i < MAX_DARTS_PER_DEVICE" and "dart (stream_maps c i) = None"
    and "\<forall>j<i. dart (stream_maps c j) \<noteq> None"
  shows "of_xlate_slots c d sid =
           Inr (0, Some (c\<lparr>stream_maps := put_sid i d (nat sid) (stream_maps c)\<rparr>))"
proof -
  have f: "find (\<lambda>i. dart (stream_maps c i) = Some d) [0..<MAX_DARTS_PER_DEVICE] = None"
    using assms(3) by (simp add: find_slot_None)
  have g: "find (\<lambda>i. dart (stream_maps c i) = None) [0..<MAX_DARTS_PER_DEVICE] = Some i"
    using assms(4-6) by (simp add: find_slot_Some)
  show ?thesis
    by (simp add: of_xlate_slots_def f g cfg_set_bit_ok [OF assms(1,2)] put_sid_def
          stream_map_update_both)
qed

lemma of_xlate_slots_full:
  assumes "\<forall>j<MAX_DARTS_PER_DEVICE. dart (stream_maps c j) \<noteq> Some d \<and> dart (stream_maps c j) \<noteq> None"
  shows "of_xlate_slots c d sid = Inr (- EINVAL, Some c)"
proof -
  have f: "find (\<lambda>i. dart (stream_maps c i) = Some d) [0..<MAX_DARTS_PER_DEVICE] = None"
    using assms by (simp add: find_slot_None)
  have g: "find (\<lambda>i. dart (stream_maps c i) = None) [0..<MAX_DARTS_PER_DEVICE] = None"
    using assms by (simp add: find_slot_None)
  show ?thesis
    by (simp add: of_xlate_slots_def f g)
qed

lemma first_such_slot:
  "(\<exists>i<n. P i) \<Longrightarrow> \<exists>i<n. P i \<and> (\<forall>j<i. \<not> P (j::nat))"
proof -
  assume "\<exists>i<n. P i"
  then obtain i where i: "i < n" "P i" by blast
  define k where "k = (LEAST x. P x)"
  have "P k" unfolding k_def using i(2) by (rule LeastI)
  moreover have "k \<le> i" unfolding k_def using i(2) by (rule Least_le)
  moreover have "\<forall>j<k. \<not> P j" unfolding k_def using not_less_Least by blast
  ultimately have "k < n \<and> P k \<and> (\<forall>j<k. \<not> P j)" using i(1) by simp
  then show ?thesis by (intro exI [of _ k]) simp
qed

lemma first_slot_unique:
  "P i \<Longrightarrow> \<forall>j<i. \<not> P j \<Longrightarrow> P k \<Longrightarrow> \<forall>j<k. \<not> P j \<Longrightarrow> k = (i::nat)"
  by (rule linorder_cases [of k i]) auto

lemma of_xlate_existing:
  assumes "pgsize_matches ds c d"
  shows "apple_dart_of_xlate ds kzalloc_ok (Some c) d 1 arg0 =
     of_xlate_slots (c\<lparr>cfg_supports_bypass := cfg_supports_bypass c \<and> supports_bypass (ds d)\<rparr>)
       d (sint arg0)"
proof -
  have mm: "\<not> (case dart (stream_maps c 0) of None \<Rightarrow> False
              | Some cfg_dart \<Rightarrow> pgsize (ds cfg_dart) \<noteq> pgsize (ds d))"
    using assms by (simp add: pgsize_matches_def split: option.splits)
  have c1: "(if \<not> supports_bypass (ds d) then c\<lparr>cfg_supports_bypass := False\<rparr> else c) =
            c\<lparr>cfg_supports_bypass := cfg_supports_bypass c \<and> supports_bypass (ds d)\<rparr>"
    by simp
  show ?thesis
    unfolding apple_dart_of_xlate_def Let_def c1 using mm by simp
qed

lemma of_xlate_mismatch:
  assumes "\<not> pgsize_matches ds c d"
  shows "apple_dart_of_xlate ds kzalloc_ok (Some c) d 1 arg0 = Inr (- EINVAL, Some c)"
  using assms
  by (simp add: apple_dart_of_xlate_def pgsize_matches_def split: option.splits)

lemma of_xlate_first:
  "apple_dart_of_xlate ds True None d 1 arg0 =
     of_xlate_slots (kzalloc_master_cfg\<lparr>cfg_supports_bypass := supports_bypass (ds d)\<rparr>)
       d (sint arg0)"
proof -
  have c1: "\<And>c. cfg_supports_bypass c \<Longrightarrow>
      (if \<not> supports_bypass (ds d) then c\<lparr>cfg_supports_bypass := False\<rparr> else c) =
            c\<lparr>cfg_supports_bypass := supports_bypass (ds d)\<rparr>"
    by simp
  show ?thesis
    unfolding apple_dart_of_xlate_def Let_def
    by (simp add: c1) (simp add: kzalloc_master_cfg_def)
qed


lemma of_xlate_existing_cases:
  assumes "0 \<le> sint arg0" and "sint arg0 < int DART_MAX_STREAMS" and "pgsize_matches ds c d"
  shows "\<exists>ret c'. apple_dart_of_xlate ds kzalloc_ok (Some c) d 1 arg0 = Inr (ret, Some c') \<and>
         cfg_supports_bypass c' = (cfg_supports_bypass c \<and> supports_bypass (ds d)) \<and>
         (\<forall>i<MAX_DARTS_PER_DEVICE.
            dart (stream_maps c i) = Some d \<and> (\<forall>j<i. dart (stream_maps c j) \<noteq> Some d) \<longrightarrow>
            ret = 0 \<and> stream_maps c' = put_sid i d (nat (sint arg0)) (stream_maps c)) \<and>
         ((\<forall>i<MAX_DARTS_PER_DEVICE. dart (stream_maps c i) \<noteq> Some d) \<longrightarrow>
            (\<forall>i<MAX_DARTS_PER_DEVICE.
               dart (stream_maps c i) = None \<and> (\<forall>j<i. dart (stream_maps c j) \<noteq> None) \<longrightarrow>
               ret = 0 \<and> stream_maps c' = put_sid i d (nat (sint arg0)) (stream_maps c))) \<and>
         ((\<forall>i<MAX_DARTS_PER_DEVICE.
              dart (stream_maps c i) \<noteq> Some d \<and> dart (stream_maps c i) \<noteq> None) \<longrightarrow>
            ret = - EINVAL \<and> stream_maps c' = stream_maps c)"
proof -
  let ?c1 = "c\<lparr>cfg_supports_bypass := cfg_supports_bypass c \<and> supports_bypass (ds d)\<rparr>"
  let ?sid = "nat (sint arg0)"
  let ?P = "\<lambda>i. dart (stream_maps c i) = Some d"
  let ?Q = "\<lambda>i. dart (stream_maps c i) = None"
  have eq: "apple_dart_of_xlate ds kzalloc_ok (Some c) d 1 arg0 = of_xlate_slots ?c1 d (sint arg0)"
    using assms(3) by (rule of_xlate_existing)
  have cases3:
    "(\<exists>i<MAX_DARTS_PER_DEVICE. ?P i \<and> (\<forall>j<i. \<not> ?P j)) \<or>
     ((\<forall>j<MAX_DARTS_PER_DEVICE. \<not> ?P j) \<and> (\<exists>i<MAX_DARTS_PER_DEVICE. ?Q i \<and> (\<forall>j<i. \<not> ?Q j))) \<or>
     (\<forall>j<MAX_DARTS_PER_DEVICE. \<not> ?P j \<and> \<not> ?Q j)"
  proof (cases "\<exists>i<MAX_DARTS_PER_DEVICE. ?P i")
    case True
    then show ?thesis
      using first_such_slot [of MAX_DARTS_PER_DEVICE ?P] by simp
  next
    case noP: False
    show ?thesis
    proof (cases "\<exists>i<MAX_DARTS_PER_DEVICE. ?Q i")
      case True
      then have "\<exists>i<MAX_DARTS_PER_DEVICE. ?Q i \<and> (\<forall>j<i. \<not> ?Q j)"
        by (rule first_such_slot)
      then show ?thesis
        using noP by simp
    next
      case False
      then show ?thesis
        using noP by simp
    qed
  qed
  then consider (reuse) i where "i < MAX_DARTS_PER_DEVICE" "?P i" "\<forall>j<i. \<not> ?P j"
    | (free) i where "\<forall>j<MAX_DARTS_PER_DEVICE. \<not> ?P j" "i < MAX_DARTS_PER_DEVICE" "?Q i" "\<forall>j<i. \<not> ?Q j"
    | (full) "\<forall>j<MAX_DARTS_PER_DEVICE. \<not> ?P j \<and> \<not> ?Q j"
    by auto
  then show ?thesis
  proof cases
    case reuse
    let ?c' = "?c1\<lparr>stream_maps := put_sid i d ?sid (stream_maps c)\<rparr>"
    have res: "apple_dart_of_xlate ds kzalloc_ok (Some c) d 1 arg0 = Inr (0, Some ?c')"
      using of_xlate_slots_reuse [OF assms(1,2), of i ?c1 d] reuse by (simp add: eq)
    have uniq: "k = i" if "?P k" "\<forall>j<k. \<not> ?P j" for k
      using reuse(2,3) that by (rule first_slot_unique [of ?P])
    show ?thesis
      apply (rule exI [of _ 0])
      apply (rule exI [of _ ?c'])
      apply (intro conjI)
          apply (rule res)
         apply simp
      subgoal using uniq by auto
      subgoal using reuse(1,2) by blast
      subgoal using reuse(1,2) by blast
      done
  next
    case free
    let ?c' = "?c1\<lparr>stream_maps := put_sid i d ?sid (stream_maps c)\<rparr>"
    have res: "apple_dart_of_xlate ds kzalloc_ok (Some c) d 1 arg0 = Inr (0, Some ?c')"
      using of_xlate_slots_free [OF assms(1,2), of ?c1 d i] free by (simp add: eq)
    have uniq: "k = i" if "?Q k" "\<forall>j<k. \<not> ?Q j" for k
      using free(3,4) that by (rule first_slot_unique [of ?Q])
    show ?thesis
      apply (rule exI [of _ 0])
      apply (rule exI [of _ ?c'])
      apply (intro conjI)
          apply (rule res)
         apply simp
      subgoal using free(1) by blast
      subgoal using uniq by auto
      subgoal using free(2,3) by blast
      done
  next
    case full
    have res: "apple_dart_of_xlate ds kzalloc_ok (Some c) d 1 arg0 = Inr (- EINVAL, Some ?c1)"
      using of_xlate_slots_full [of ?c1 d "sint arg0"] full by (simp add: eq)
    show ?thesis
      apply (rule exI [of _ "- EINVAL"])
      apply (rule exI [of _ ?c1])
      apply (intro conjI)
          apply (rule res)
         apply simp
      subgoal using full by blast
      subgoal using full by blast
      subgoal by simp
      done
  qed
qed

lemma of_xlate_first_result:
  assumes "0 \<le> sint arg0" and "sint arg0 < int DART_MAX_STREAMS"
  shows "apple_dart_of_xlate ds True None d 1 arg0 =
     Inr (0, Some \<lparr>cfg_supports_bypass = supports_bypass (ds d),
                    stream_maps = put_sid 0 d (nat (sint arg0)) (stream_maps kzalloc_master_cfg)\<rparr>)"
proof -
  let ?c = "kzalloc_master_cfg\<lparr>cfg_supports_bypass := supports_bypass (ds d)\<rparr>"
  have z: "0 < MAX_DARTS_PER_DEVICE"
    by (simp add: MAX_DARTS_PER_DEVICE_def)
  have "of_xlate_slots ?c d (sint arg0) =
      Inr (0, Some (?c\<lparr>stream_maps := put_sid 0 d (nat (sint arg0)) (stream_maps ?c)\<rparr>))"
  proof (rule of_xlate_slots_free [OF assms])
    show "\<forall>j<MAX_DARTS_PER_DEVICE. dart (stream_maps ?c j) \<noteq> Some d"
      by (simp add: kzalloc_master_cfg_def)
    show "0 < MAX_DARTS_PER_DEVICE"
      by (rule z)
    show "dart (stream_maps ?c 0) = None"
      by (simp add: kzalloc_master_cfg_def)
    show "\<forall>j<0. dart (stream_maps ?c j) \<noteq> None"
      by simp
  qed
  then show ?thesis
    by (simp add: of_xlate_first)
qed

text \<open>
  Claim C7, as the code has it. For a specifier with one argument naming a stream id
  below \<open>DART_MAX_STREAMS\<close>: with no config yet (and the allocation succeeding) the
  call returns 0 and leaves a config whose bypass flag is the unit's bypass support
  (true ANDed with it), with the unit and the stream's bit in slot 0. With a config
  whose first unit has the page size of the specifier's unit, the flag becomes its old
  value ANDed with the unit's bypass support, and: the first slot holding the unit gets
  the bit and the call returns 0; if no slot holds it, the first free slot gets the
  unit and the bit and the call returns 0; if all three slots hold other units, the
  call returns \<^verbatim>\<open>-EINVAL\<close> and the slots stay as they are. With a config whose first
  unit has another page size the call returns \<^verbatim>\<open>-EINVAL\<close> and changes nothing.
\<close>

theorem of_xlate_specifier:
  assumes "0 \<le> sint arg0" and "sint arg0 < int DART_MAX_STREAMS"
  shows "apple_dart_of_xlate ds True None d 1 arg0 =
           Inr (0, Some \<lparr>cfg_supports_bypass = supports_bypass (ds d),
                          stream_maps = put_sid 0 d (nat (sint arg0)) (stream_maps kzalloc_master_cfg)\<rparr>) \<and>
         (\<forall>c. pgsize_matches ds c d \<longrightarrow>
            (\<exists>ret c'. apple_dart_of_xlate ds kzalloc_ok (Some c) d 1 arg0 = Inr (ret, Some c') \<and>
               cfg_supports_bypass c' = (cfg_supports_bypass c \<and> supports_bypass (ds d)) \<and>
               (\<forall>i<MAX_DARTS_PER_DEVICE.
                  dart (stream_maps c i) = Some d \<and> (\<forall>j<i. dart (stream_maps c j) \<noteq> Some d) \<longrightarrow>
                  ret = 0 \<and> stream_maps c' = put_sid i d (nat (sint arg0)) (stream_maps c)) \<and>
               ((\<forall>i<MAX_DARTS_PER_DEVICE. dart (stream_maps c i) \<noteq> Some d) \<longrightarrow>
                  (\<forall>i<MAX_DARTS_PER_DEVICE.
                     dart (stream_maps c i) = None \<and> (\<forall>j<i. dart (stream_maps c j) \<noteq> None) \<longrightarrow>
                     ret = 0 \<and> stream_maps c' = put_sid i d (nat (sint arg0)) (stream_maps c))) \<and>
               ((\<forall>i<MAX_DARTS_PER_DEVICE.
                    dart (stream_maps c i) \<noteq> Some d \<and> dart (stream_maps c i) \<noteq> None) \<longrightarrow>
                  ret = - EINVAL \<and> stream_maps c' = stream_maps c))) \<and>
         (\<forall>c. \<not> pgsize_matches ds c d \<longrightarrow>
            apple_dart_of_xlate ds kzalloc_ok (Some c) d 1 arg0 = Inr (- EINVAL, Some c))"
proof (intro conjI allI impI)
  show "apple_dart_of_xlate ds True None d 1 arg0 =
          Inr (0, Some \<lparr>cfg_supports_bypass = supports_bypass (ds d),
                         stream_maps = put_sid 0 d (nat (sint arg0)) (stream_maps kzalloc_master_cfg)\<rparr>)"
    using assms by (rule of_xlate_first_result)
next
  fix c assume "pgsize_matches ds c d"
  with assms show "\<exists>ret c'. apple_dart_of_xlate ds kzalloc_ok (Some c) d 1 arg0 = Inr (ret, Some c') \<and>
         cfg_supports_bypass c' = (cfg_supports_bypass c \<and> supports_bypass (ds d)) \<and>
         (\<forall>i<MAX_DARTS_PER_DEVICE.
            dart (stream_maps c i) = Some d \<and> (\<forall>j<i. dart (stream_maps c j) \<noteq> Some d) \<longrightarrow>
            ret = 0 \<and> stream_maps c' = put_sid i d (nat (sint arg0)) (stream_maps c)) \<and>
         ((\<forall>i<MAX_DARTS_PER_DEVICE. dart (stream_maps c i) \<noteq> Some d) \<longrightarrow>
            (\<forall>i<MAX_DARTS_PER_DEVICE.
               dart (stream_maps c i) = None \<and> (\<forall>j<i. dart (stream_maps c j) \<noteq> None) \<longrightarrow>
               ret = 0 \<and> stream_maps c' = put_sid i d (nat (sint arg0)) (stream_maps c))) \<and>
         ((\<forall>i<MAX_DARTS_PER_DEVICE.
              dart (stream_maps c i) \<noteq> Some d \<and> dart (stream_maps c i) \<noteq> None) \<longrightarrow>
            ret = - EINVAL \<and> stream_maps c' = stream_maps c)"
    by (rule of_xlate_existing_cases)
next
  fix c assume "\<not> pgsize_matches ds c d"
  then show "apple_dart_of_xlate ds kzalloc_ok (Some c) d 1 arg0 = Inr (- EINVAL, Some c)"
    by (rule of_xlate_mismatch)
qed


theorem of_xlate_specifier_witness:
  "apple_dart_of_xlate ex_units True None 0 1 5 =
     Inr (0, Some \<lparr>cfg_supports_bypass = True,
                    stream_maps = put_sid 0 0 5 (stream_maps kzalloc_master_cfg)\<rparr>) \<and>
   (\<exists>c'. apple_dart_of_xlate ex_units True (Some ex_cfg) 0 1 5 = Inr (0, Some c') \<and>
         cfg_supports_bypass c' \<and> stream_maps c' = put_sid 0 0 5 (stream_maps ex_cfg)) \<and>
   apple_dart_of_xlate ex_units True (Some ex_cfg) 1 1 5 = Inr (- EINVAL, Some ex_cfg)"
proof -
  have r: "0 \<le> sint (5 :: u32)" "sint (5 :: u32) < int DART_MAX_STREAMS"
    by (simp_all add: DART_MAX_STREAMS_def)
  have n: "nat (sint (5 :: u32)) = 5"
    by simp
  have slot0: "dart (stream_maps ex_cfg 0) = Some 0"
    by (simp add: ex_cfg_def put_sid_def)
  have m0: "pgsize_matches ex_units ex_cfg 0"
    by (simp add: pgsize_matches_def slot0)
  have m1: "\<not> pgsize_matches ex_units ex_cfg 1"
    by (simp add: pgsize_matches_def slot0 ex_units_def ex_dart_def)
  have b: "supports_bypass (ex_units 0)" "cfg_supports_bypass ex_cfg"
    by (simp_all add: ex_units_def ex_dart_def ex_cfg_def)
  have z: "0 < MAX_DARTS_PER_DEVICE"
    by (simp add: MAX_DARTS_PER_DEVICE_def)
  note t0 = of_xlate_specifier [OF r, of ex_units 0 True]
  note t1 = of_xlate_specifier [OF r, of ex_units 1 True]
  have first: "apple_dart_of_xlate ex_units True None 0 1 5 =
     Inr (0, Some \<lparr>cfg_supports_bypass = True,
                    stream_maps = put_sid 0 0 5 (stream_maps kzalloc_master_cfg)\<rparr>)"
    using t0 b(1) by (simp add: n)
  note ex = t0 [THEN conjunct2, THEN conjunct1, rule_format, OF m0]
  from ex obtain ret c' where
      all: "apple_dart_of_xlate ex_units True (Some ex_cfg) 0 1 5 = Inr (ret, Some c') \<and>
         cfg_supports_bypass c' = (cfg_supports_bypass ex_cfg \<and> supports_bypass (ex_units 0)) \<and>
         (\<forall>i<MAX_DARTS_PER_DEVICE.
            dart (stream_maps ex_cfg i) = Some 0 \<and> (\<forall>j<i. dart (stream_maps ex_cfg j) \<noteq> Some 0) \<longrightarrow>
            ret = 0 \<and> stream_maps c' = put_sid i 0 (nat (sint (5 :: u32))) (stream_maps ex_cfg)) \<and>
         ((\<forall>i<MAX_DARTS_PER_DEVICE. dart (stream_maps ex_cfg i) \<noteq> Some 0) \<longrightarrow>
            (\<forall>i<MAX_DARTS_PER_DEVICE.
               dart (stream_maps ex_cfg i) = None \<and> (\<forall>j<i. dart (stream_maps ex_cfg j) \<noteq> None) \<longrightarrow>
               ret = 0 \<and> stream_maps c' = put_sid i 0 (nat (sint (5 :: u32))) (stream_maps ex_cfg))) \<and>
         ((\<forall>i<MAX_DARTS_PER_DEVICE.
              dart (stream_maps ex_cfg i) \<noteq> Some 0 \<and> dart (stream_maps ex_cfg i) \<noteq> None) \<longrightarrow>
            ret = - EINVAL \<and> stream_maps c' = stream_maps ex_cfg)"
    by (elim exE) (rule that)
  note res = all [THEN conjunct1]
  note flag = all [THEN conjunct2, THEN conjunct1]
  note reuse = all [THEN conjunct2, THEN conjunct2, THEN conjunct1, rule_format, OF z]
  have "ret = 0 \<and> stream_maps c' = put_sid 0 0 5 (stream_maps ex_cfg)"
    using reuse slot0 by (simp add: n)
  then have second: "\<exists>c'. apple_dart_of_xlate ex_units True (Some ex_cfg) 0 1 5 = Inr (0, Some c') \<and>
         cfg_supports_bypass c' \<and> stream_maps c' = put_sid 0 0 5 (stream_maps ex_cfg)"
    using res flag b by auto
  have third: "apple_dart_of_xlate ex_units True (Some ex_cfg) 1 1 5 = Inr (- EINVAL, Some ex_cfg)"
    using t1 [THEN conjunct2, THEN conjunct2, rule_format, OF m1] .
  show ?thesis
    using first second third by (intro conjI)
qed

text \<open>
  The claim as worded has every specifier AND in the unit's bypass support and set the
  stream's bit in a slot. After one specifier for unit 0 (16 KiB pages), a specifier for
  unit 1 (4 KiB pages, no bypass support) and stream 2 is rejected with \<^verbatim>\<open>-EINVAL\<close>
  although two slots are free: the flag stays true and no bit is set.
\<close>

theorem of_xlate_pgsize_counterexample:
  "apple_dart_of_xlate ex_units True None 0 1 1 = Inr (0, Some ex_cfg) \<and>
   apple_dart_of_xlate ex_units True (Some ex_cfg) 1 1 2 = Inr (- EINVAL, Some ex_cfg) \<and>
   cfg_supports_bypass ex_cfg \<and> \<not> supports_bypass (ex_units 1) \<and>
   dart (stream_maps ex_cfg 0) = Some 0 \<and> dart (stream_maps ex_cfg 1) = None \<and>
   dart (stream_maps ex_cfg 2) = None \<and> \<not> bit (sidmap (stream_maps ex_cfg 0)) 2"
proof -
  have r: "0 \<le> sint (1 :: u32)" "sint (1 :: u32) < int DART_MAX_STREAMS"
    by (simp_all add: DART_MAX_STREAMS_def)
  have slot0: "dart (stream_maps ex_cfg 0) = Some 0"
    by (simp add: ex_cfg_def put_sid_def)
  have m1: "\<not> pgsize_matches ex_units ex_cfg 1"
    by (simp add: pgsize_matches_def slot0 ex_units_def ex_dart_def)
  have first: "apple_dart_of_xlate ex_units True None 0 1 1 = Inr (0, Some ex_cfg)"
    using of_xlate_first_result [OF r, of ex_units 0]
    by (simp add: ex_cfg_def ex_units_def ex_dart_def)
  have second: "apple_dart_of_xlate ex_units True (Some ex_cfg) 1 1 2 = Inr (- EINVAL, Some ex_cfg)"
    using m1 by (rule of_xlate_mismatch)
  have rest: "cfg_supports_bypass ex_cfg" "\<not> supports_bypass (ex_units 1)"
    "dart (stream_maps ex_cfg 1) = None" "dart (stream_maps ex_cfg 2) = None"
    "\<not> bit (sidmap (stream_maps ex_cfg 0)) 2"
    by (simp_all add: ex_cfg_def ex_units_def ex_dart_def put_sid_def kzalloc_master_cfg_def
          bit_simps)
  show ?thesis
    using first second slot0 rest by simp
qed

subsection \<open>Attaching the identity domain\<close>

lemma pm_fields [simp]:
  "darts (pm_runtime_get_sync d s) = darts s"
  "darts (pm_runtime_put d s) = darts s"
  "klog (pm_runtime_get_sync d s) = klog s @ [PM_RUNTIME_GET d]"
  "klog (pm_runtime_put d s) = klog s @ [PM_RUNTIME_PUT d]"
  by (simp_all add: pm_runtime_get_sync_def pm_runtime_put_def)

lemma enable_bypass_klog:
  "klog (apple_dart_hw_enable_bypass d m s) =
     klog s @ (if locked (darts s d) then [WARN] else []) @
     (if supports_bypass (darts s d) then [] else [WARN])"
  by (simp add: apple_dart_hw_enable_bypass_def Let_def WARN_ON_def)

lemma enable_bypass_regs:
  "regs (darts (apple_dart_hw_enable_bypass d m s) e) a =
     (if e = d \<and> a \<in> DART_TCR (darts s d) ` set (for_each_set_bit m (unat (num_streams (darts s d))))
      then tcr_bypass (hw (darts s d)) else regs (darts s e) a)"
  by (simp add: apple_dart_hw_enable_bypass_def Let_def fold_writel_regs)

lemma ex_two_stream_maps:
  "for_each_stream_map (stream_maps ex_two_cfg) = [(0, 2), (1, 4)]"
proof -
  have m: "dart (stream_maps ex_two_cfg 0) = Some 0" "dart (stream_maps ex_two_cfg (Suc 0)) = Some 1"
    "dart (stream_maps ex_two_cfg (Suc (Suc 0))) = None"
    "sidmap (stream_maps ex_two_cfg 0) = 2" "sidmap (stream_maps ex_two_cfg (Suc 0)) = 4"
    by (simp_all add: ex_two_cfg_def ex_cfg_def put_sid_def kzalloc_master_cfg_def set_bit_eq)
  show ?thesis
    by (simp add: for_each_stream_map_def MAX_DARTS_PER_DEVICE_def upt_conv_Cons m)
qed

lemma attach_identity_rejects:
  assumes "\<not> cfg_supports_bypass c \<or>
           (\<exists>d0. dart (stream_maps c 0) = Some d0 \<and> locked (darts s d0))"
  shows "apple_dart_attach_dev_identity c s = Inr (- EINVAL, s)"
  using assms by (auto simp: apple_dart_attach_dev_identity_def)

text \<open>
  Claim C4 asks that attaching the identity domain fail with \<^verbatim>\<open>-EINVAL\<close>, before any
  register write, when any unit of the device is locked. The code tests the lock of the
  unit in slot 0 only. On the example device, whose config the two specifiers
  (unit 0, stream 1) and (unit 1, stream 2) produce and whose unit 1 is locked, the
  attach returns 0, the TCR register of stream 2 of the locked unit goes from 0 to the
  bypass value, and the \<^verbatim>\<open>WARN_ON\<close> of \<^verbatim>\<open>apple_dart_hw_enable_bypass\<close> about a locked
  unit fires.
\<close>

theorem attach_identity_writes_locked_unit:
  "apple_dart_of_xlate (darts ex_two_units) True (Some ex_cfg) 1 1 2 = Inr (0, Some ex_two_cfg) \<and>
   locked (darts ex_two_units 1) \<and>
   (case apple_dart_attach_dev_identity ex_two_cfg ex_two_units of
      Inl f \<Rightarrow> False
    | Inr (ret, s') \<Rightarrow>
        ret = 0 \<and>
        readl 1 (DART_TCR (darts ex_two_units 1) 2) ex_two_units = 0 \<and>
        readl 1 (DART_TCR (darts ex_two_units 1) 2) s' = tcr_bypass apple_dart_hw_t8110 \<and>
        klog s' = [PM_RUNTIME_GET 0, PM_RUNTIME_GET 1, WARN, PM_RUNTIME_PUT 0, PM_RUNTIME_PUT 1])"
proof -
  have d0: "darts ex_two_units 0 = ex_dart" and d1: "darts ex_two_units 1 = ex_dart\<lparr>locked := True\<rparr>"
    and d1': "darts ex_two_units (Suc 0) = ex_dart\<lparr>locked := True\<rparr>"
    by (simp_all add: ex_two_units_def)
  have r: "0 \<le> sint (2 :: u32)" "sint (2 :: u32) < int DART_MAX_STREAMS"
    by (simp_all add: DART_MAX_STREAMS_def)
  have slots: "dart (stream_maps ex_cfg 0) = Some 0" "dart (stream_maps ex_cfg (Suc 0)) = None"
    "dart (stream_maps ex_cfg 2) = None"
    by (simp_all add: ex_cfg_def put_sid_def kzalloc_master_cfg_def)
  have pm: "pgsize_matches (darts ex_two_units) ex_cfg 1"
    by (simp add: pgsize_matches_def slots ex_two_units_def)
  have flag: "ex_cfg\<lparr>cfg_supports_bypass := cfg_supports_bypass ex_cfg \<and>
                 supports_bypass (darts ex_two_units 1)\<rparr> = ex_cfg"
    by (simp add: ex_cfg_def d1 d1' ex_dart_def)
  have "of_xlate_slots ex_cfg 1 (sint (2 :: u32)) =
      Inr (0, Some (ex_cfg\<lparr>stream_maps := put_sid 1 1 (nat (sint (2 :: u32))) (stream_maps ex_cfg)\<rparr>))"
  proof (rule of_xlate_slots_free [OF r])
    show "\<forall>j<MAX_DARTS_PER_DEVICE. dart (stream_maps ex_cfg j) \<noteq> Some 1"
      by (simp add: ex_cfg_def put_sid_def kzalloc_master_cfg_def)
    show "1 < MAX_DARTS_PER_DEVICE"
      by (simp add: MAX_DARTS_PER_DEVICE_def)
    show "dart (stream_maps ex_cfg 1) = None"
      using slots by simp
    show "\<forall>j<1. dart (stream_maps ex_cfg j) \<noteq> None"
      using slots by simp
  qed
  moreover have "ex_cfg\<lparr>stream_maps := put_sid 1 1 (nat (sint (2 :: u32))) (stream_maps ex_cfg)\<rparr> =
      ex_two_cfg"
    by (simp add: ex_two_cfg_def ex_cfg_def)
  moreover have "apple_dart_of_xlate (darts ex_two_units) True (Some ex_cfg) 1 1 2 =
      of_xlate_slots ex_cfg 1 (sint (2 :: u32))"
    using of_xlate_existing [OF pm, of True 2] by (simp only: flag)
  ultimately have xl: "apple_dart_of_xlate (darts ex_two_units) True (Some ex_cfg) 1 1 2 =
      Inr (0, Some ex_two_cfg)"
    by (simp only:)
  have lk: "locked (darts ex_two_units 1)" "\<not> locked (darts ex_two_units 0)"
    by (simp_all add: d0 d1 d1' ex_dart_def)
  let ?s1 = "pm_runtime_get_sync 1 (pm_runtime_get_sync 0 ex_two_units)"
  let ?s2 = "apple_dart_hw_enable_bypass 1 4 (apple_dart_hw_enable_bypass 0 2 ?s1)"
  let ?s3 = "pm_runtime_put 1 (pm_runtime_put 0 ?s2)"
  have att: "apple_dart_attach_dev_identity ex_two_cfg ex_two_units = Inr (0, ?s3)"
  proof -
    have c: "cfg_supports_bypass ex_two_cfg" "dart (stream_maps ex_two_cfg 0) = Some 0"
      by (simp_all add: ex_two_cfg_def ex_cfg_def put_sid_def)
    show ?thesis
      unfolding apple_dart_attach_dev_identity_def ex_two_stream_maps Let_def
      using lk(2) c by simp
  qed
  have bits: "for_each_set_bit 4 (unat (num_streams ex_dart)) = [2]"
    by (simp add: for_each_set_bit_def ex_dart_def upt_conv_Cons bit_numeral_iff bit_iff_odd)
  have before: "readl 1 (DART_TCR (darts ex_two_units 1) 2) ex_two_units = 0"
    by (simp add: readl_def d1 d1' ex_dart_def)
  have after: "readl 1 (DART_TCR (darts ex_two_units 1) 2) ?s3 = tcr_bypass apple_dart_hw_t8110"
    by (simp add: readl_def enable_bypass_regs enable_bypass_static d1 d1' bits DART_TCR_def)
       (simp add: ex_dart_def)
  have log: "klog ?s3 = [PM_RUNTIME_GET 0, PM_RUNTIME_GET 1, WARN, PM_RUNTIME_PUT 0, PM_RUNTIME_PUT 1]"
    by (simp add: enable_bypass_klog enable_bypass_static d0 d1 d1')
       (simp add: ex_dart_def ex_two_units_def)
  show ?thesis
    using xl lk(1) before after log by (simp add: att)
qed

subsection \<open>Finalizing a domain\<close>

lemma log_event_fields [simp]:
  "darts (log_event e s) = darts s"
  "kmem (log_event e s) = kmem s"
  "klog (log_event e s) = klog s @ [e]"
  by (simp_all add: log_event_def)

lemma DMA_BIT_MASK_mask: "DMA_BIT_MASK n = mask n"
  by (simp add: DMA_BIT_MASK_def mask_eq_exp_minus_1 push_bit_eq_mult)

lemma map_pages_keeps:
  assumes "apple_dart_map_pages dd iova paddr pgsz pgcount prot gfpf mapped = (ret, mapped', dd')"
  shows "dom_mask dd' = dom_mask dd \<and> finalized dd' = finalized dd \<and> domain dd' = domain dd \<and>
         dom_stream_maps dd' = dom_stream_maps dd \<and>
         (pgtbl_ops dd = None \<longleftrightarrow> pgtbl_ops dd' = None)"
  using assms
  by (auto simp: apple_dart_map_pages_def split: option.splits prod.splits)

lemma resv_map_region_keeps:
  "resv_map_region fuel dd r pgsz mapped = Some (Inr (ret, dd')) \<Longrightarrow>
   dom_mask dd' = dom_mask dd \<and> finalized dd' = finalized dd \<and> domain dd' = domain dd \<and>
   dom_stream_maps dd' = dom_stream_maps dd \<and> (pgtbl_ops dd = None \<longleftrightarrow> pgtbl_ops dd' = None)"
proof (induction fuel arbitrary: dd mapped)
  case 0
  then show ?case by simp
next
  case (Suc fuel)
  show ?case
  proof (cases "mapped < resv_length r")
    case False
    then show ?thesis using Suc.prems by simp
  next
    case True
    note lt = True
    show ?thesis
    proof (cases "pgsz = 0")
      case True
      then show ?thesis using Suc.prems lt by simp
    next
      case False
      obtain ret1 mapped1 dd1 where
        mp: "apple_dart_map_pages dd (resv_dva r + mapped) (resv_start r + mapped) pgsz
               ((resv_length r - mapped) div pgsz) (resv_prot r) GFP_KERNEL mapped = (ret1, mapped1, dd1)"
        by (cases "apple_dart_map_pages dd (resv_dva r + mapped) (resv_start r + mapped) pgsz
               ((resv_length r - mapped) div pgsz) (resv_prot r) GFP_KERNEL mapped") auto
      note k1 = map_pages_keeps [OF mp]
      show ?thesis
      proof (cases "ret1 = 0")
        case True
        then have "resv_map_region fuel dd1 r pgsz mapped1 = Some (Inr (ret, dd'))"
          using Suc.prems lt False mp by (simp add: Let_def)
        from Suc.IH [OF this] k1 show ?thesis by simp
      next
        case False
        then have "dd' = dd1"
          using Suc.prems lt \<open>pgsz \<noteq> 0\<close> mp by (simp add: Let_def)
        then show ?thesis using k1 by simp
      qed
    qed
  qed
qed

lemma setup_resv_keeps:
  "apple_dart_setup_resv_locked fuel dd regions pgsz = Some (Inr (ret, dd')) \<Longrightarrow>
   dom_mask dd' = dom_mask dd \<and> finalized dd' = finalized dd \<and> domain dd' = domain dd \<and>
   dom_stream_maps dd' = dom_stream_maps dd \<and> (pgtbl_ops dd = None \<longleftrightarrow> pgtbl_ops dd' = None)"
proof (induction regions arbitrary: dd)
  case Nil
  then show ?case by simp
next
  case (Cons r rs)
  show ?case
  proof (cases "resv_type r \<noteq> IOMMU_RESV_TRANSLATED")
    case True
    then show ?thesis using Cons by simp
  next
    case False
    then have tr: "resv_type r = IOMMU_RESV_TRANSLATED" by simp
    from Cons.prems tr obtain ret1 dd1 where
      reg: "resv_map_region fuel dd r pgsz 0 = Some (Inr (ret1, dd1))"
      by (auto split: option.splits sum.splits)
    note k1 = resv_map_region_keeps [OF reg]
    show ?thesis
    proof (cases "ret1 = 0")
      case True
      then have "apple_dart_setup_resv_locked fuel dd1 rs pgsz = Some (Inr (ret, dd'))"
        using Cons.prems tr reg by simp
      from Cons.IH [OF this] k1 show ?thesis by simp
    next
      case False
      then have "dd' = dd1"
        using Cons.prems tr reg by simp
      then show ?thesis using k1 by simp
    qed
  qed
qed

lemma finalize_locked_log:
  "\<exists>ws. klog (snd (finalize_locked d m ias0 pc dmax s)) = klog s @ ws \<and> set ws \<subseteq> {WARN} \<and>
        darts (snd (finalize_locked d m ias0 pc dmax s)) = darts s \<and>
        kmem (snd (finalize_locked d m ias0 pc dmax s)) = kmem s"
proof -
  let ?dt = "darts s d"
  let ?s1 = "WARN_ON (bitmap_weight m (unat (num_streams ?dt)) > 1) s"
  let ?s2 = "WARN_ON (readl d (DART_TTBR ?dt (find_first_bit m (unat (num_streams ?dt))) 0) ?s1
                       AND ttbr_valid (hw ?dt) = 0) ?s1"
  have snd_eq: "snd (finalize_locked d m ias0 pc dmax s) = ?s2"
    by (simp add: finalize_locked_def Let_def)
  have "\<exists>ws. klog ?s2 = klog s @ ws \<and> set ws \<subseteq> {WARN}"
    by (auto simp: WARN_ON_def)
  then show ?thesis
    unfolding snd_eq by simp
qed


lemma finalize_alloc_inv:
  assumes "finalize_alloc alloc regions fuel dt pc1 dmax1 dd1 s2 = Some (Inr (ret, dd', s'))"
  shows "s' = log_event MUTEX_UNLOCK (log_event ALLOC_PGTABLE s2) \<and>
         ((alloc (fmt (hw dt)) pc1 = None \<and> ret = - ENOMEM \<and> dd' = dd1\<lparr>pgtbl_ops := None\<rparr>) \<or>
          (\<exists>pc2 pt. alloc (fmt (hw dt)) pc1 = Some (pc2, pt) \<and> finalized dd' \<and>
             dom_mask dd' = finalize_mask dt pc2 (dom_mask dd1) \<and>
             domain dd' = \<lparr>dom_pgsize_bitmap = pgsize_bitmap pc2, aperture_start = dma_min dt,
                            aperture_end = dmax1, force_aperture = True\<rparr> \<and>
             dom_stream_maps dd' = dom_stream_maps dd1 \<and> pgtbl_ops dd' \<noteq> None))"
proof (cases "alloc (fmt (hw dt)) pc1")
  case None
  then show ?thesis
    using assms by (auto simp: finalize_alloc_def Let_def)
next
  case (Some a)
  obtain pc2 pt where a: "a = (pc2, pt)" by (cases a)
  let ?dd2 = "dd1\<lparr>pgtbl_ops := Some pt,
                    dom_mask := finalize_mask dt pc2 (dom_mask dd1),
                    domain := \<lparr>dom_pgsize_bitmap = pgsize_bitmap pc2,
                               aperture_start = dma_min dt,
                               aperture_end = dmax1,
                               force_aperture = True\<rparr>,
                    finalized := True\<rparr>"
  have run: "apple_dart_setup_resv_locked fuel ?dd2 regions (ucast (pgsize dt)) = Some (Inr (ret, dd'))"
    and st: "s' = log_event MUTEX_UNLOCK (log_event ALLOC_PGTABLE s2)"
    using assms Some a
    by (auto simp: finalize_alloc_def Let_def split: option.splits sum.splits)
  from setup_resv_keeps [OF run] have
    "finalized dd' \<and> dom_mask dd' = finalize_mask dt pc2 (dom_mask dd1) \<and>
     domain dd' = \<lparr>dom_pgsize_bitmap = pgsize_bitmap pc2, aperture_start = dma_min dt,
                    aperture_end = dmax1, force_aperture = True\<rparr> \<and>
     dom_stream_maps dd' = dom_stream_maps dd1 \<and> pgtbl_ops dd' \<noteq> None"
    by simp
  then show ?thesis
    using Some a st by simp
qed

lemma finalize_finalized:
  assumes "finalized dd" and "dart (stream_maps c 0) = Some d"
    and "unat (pgsize (darts s d)) \<le> P"
  shows "apple_dart_finalize_domain P alloc regions fuel dd c s =
           Some (Inr (0, dd, s\<lparr>klog := klog s @ [MUTEX_LOCK, READ_FINALIZED, MUTEX_UNLOCK]\<rparr>))"
  using assms by (simp add: apple_dart_finalize_domain_def Let_def log_event_def)

lemma finalize_inv:
  assumes nf: "\<not> finalized dd"
    and run: "apple_dart_finalize_domain P alloc regions fuel dd c s = Some (Inr (ret, dd', s'))"
  shows "\<exists>d. dart (stream_maps c 0) = Some d \<and>
      ((unat (pgsize (darts s d)) > P \<and> ret = - EINVAL \<and> dd' = dd \<and> s' = s) \<or>
       (unat (pgsize (darts s d)) \<le> P \<and> \<not> finalized dd' \<and> ret \<noteq> 0 \<and>
          (\<exists>ws. klog s' = klog s @ [MUTEX_LOCK, READ_FINALIZED] @ ws @ [MUTEX_UNLOCK] \<and> set ws \<subseteq> {WARN})) \<or>
       (unat (pgsize (darts s d)) \<le> P \<and> \<not> finalized dd' \<and> ret \<noteq> 0 \<and>
          (\<exists>ws. klog s' = klog s @ [MUTEX_LOCK, READ_FINALIZED] @ ws @ [ALLOC_PGTABLE, MUTEX_UNLOCK] \<and>
                set ws \<subseteq> {WARN})) \<or>
       (unat (pgsize (darts s d)) \<le> P \<and> finalized dd' \<and> pgtbl_ops dd' \<noteq> None \<and> darts s' = darts s \<and>
          (\<exists>pc1 dmax1 pc2 pt ws.
             fst (finalize_prepare d c (under_init_lock s)) = Inr (pc1, dmax1) \<and>
             alloc (fmt (hw (darts s d))) pc1 = Some (pc2, pt) \<and>
             dom_mask dd' = finalize_mask (darts s d) pc2 (dom_mask dd) \<and>
             dom_pgsize_bitmap (domain dd') = pgsize_bitmap pc2 \<and>
             klog s' = klog s @ [MUTEX_LOCK, READ_FINALIZED] @ ws @ [ALLOC_PGTABLE, MUTEX_UNLOCK] \<and>
             set ws \<subseteq> {WARN})))"
proof -
  from run obtain d where d: "dart (stream_maps c 0) = Some d"
    by (auto simp: apple_dart_finalize_domain_def split: option.splits)
  let ?dt = "darts s d"
  show ?thesis
  proof (cases "unat (pgsize ?dt) > P")
    case True
    then show ?thesis
      using run d by (auto simp: apple_dart_finalize_domain_def Let_def)
  next
    case False
    then have le: "unat (pgsize ?dt) \<le> P" by simp
    let ?s1 = "log_event READ_FINALIZED (log_event MUTEX_LOCK s)"
    let ?ias0 = "min (ias ?dt) (of_nat (fls64 (dma_max ?dt)))"
    let ?dd1 = "dd\<lparr>dom_stream_maps :=
                  copy_stream_maps (BITS_TO_LONGS (unat (num_streams ?dt)))
                    (stream_maps c) (dom_stream_maps dd)\<rparr>"
    let ?pc0 = "finalize_init_cfg ?dt ?ias0"
    let ?R = "finalize_prepare d c ?s1"
    have Rdef: "?R = (if locked ?dt
              then finalize_locked d (sidmap (stream_maps c 0)) ?ias0 ?pc0 (dma_max ?dt) ?s1
              else (Inr (?pc0, dma_max ?dt), ?s1))"
      by (simp add: finalize_prepare_def Let_def)
    obtain r s2 where R: "?R = (r, s2)" by (cases ?R)
    have body: "apple_dart_finalize_domain P alloc regions fuel dd c s =
        (case (r, s2) of
           (Inl ret, s2) \<Rightarrow> Some (Inr (ret, ?dd1, log_event MUTEX_UNLOCK s2))
         | (Inr (pc1, dmax1), s2) \<Rightarrow> finalize_alloc alloc regions fuel ?dt pc1 dmax1 ?dd1 s2)"
      using d False nf unfolding apple_dart_finalize_domain_def Let_def R [symmetric] by simp
    have "\<exists>ws. klog s2 = klog ?s1 @ ws \<and> set ws \<subseteq> {WARN} \<and> darts s2 = darts s"
    proof (cases "locked ?dt")
      case True
      then have "s2 = snd (finalize_locked d (sidmap (stream_maps c 0)) ?ias0 ?pc0 (dma_max ?dt) ?s1)"
        using R Rdef by (metis snd_conv)
      then show ?thesis
        using finalize_locked_log [of d "sidmap (stream_maps c 0)" ?ias0 ?pc0 "dma_max ?dt" ?s1]
        by auto
    next
      case False
      then have "s2 = ?s1" using R Rdef by simp
      then show ?thesis by simp
    qed
    then obtain ws where ws: "klog s2 = klog s @ [MUTEX_LOCK, READ_FINALIZED] @ ws"
      "set ws \<subseteq> {WARN}" "darts s2 = darts s"
      by auto
    have err: "ret0 = - ENOMEM" if "r = Inl ret0" for ret0
    proof (cases "locked ?dt")
      case True
      then have "fst (finalize_locked d (sidmap (stream_maps c 0)) ?ias0 ?pc0 (dma_max ?dt) ?s1) = Inl ret0"
        using R Rdef that by (metis fst_conv)
      then show ?thesis
        by (auto simp: finalize_locked_def Let_def split: if_splits)
    next
      case False
      then show ?thesis using R Rdef that by simp
    qed
    show ?thesis
    proof (cases r)
      case (Inl ret0)
      then have res: "ret = ret0" "dd' = ?dd1" "s' = log_event MUTEX_UNLOCK s2"
        using run body by simp_all
      have "ret \<noteq> 0"
        using err [OF Inl] res(1) by (simp add: ENOMEM_def)
      moreover have "\<not> finalized dd'"
        using res(2) nf by simp
      moreover have "klog s' = klog s @ [MUTEX_LOCK, READ_FINALIZED] @ ws @ [MUTEX_UNLOCK]"
        using res(3) ws(1) by simp
      ultimately show ?thesis
        using d le ws(2) by blast
    next
      case (Inr b)
      obtain pc1 dmax1 where b: "b = (pc1, dmax1)" by (cases b)
      have fa: "finalize_alloc alloc regions fuel ?dt pc1 dmax1 ?dd1 s2 = Some (Inr (ret, dd', s'))"
        using run body Inr b by simp
      note inv = finalize_alloc_inv [OF fa]
      have log: "klog s' = klog s @ [MUTEX_LOCK, READ_FINALIZED] @ ws @ [ALLOC_PGTABLE, MUTEX_UNLOCK]"
        using inv ws(1) by simp
      have ds: "darts s' = darts s"
        using inv ws(3) by simp
      have alt: "(alloc (fmt (hw ?dt)) pc1 = None \<and> ret = - ENOMEM \<and> dd' = ?dd1\<lparr>pgtbl_ops := None\<rparr>) \<or>
          (\<exists>pc2 pt. alloc (fmt (hw ?dt)) pc1 = Some (pc2, pt) \<and> finalized dd' \<and>
             dom_mask dd' = finalize_mask ?dt pc2 (dom_mask ?dd1) \<and>
             domain dd' = \<lparr>dom_pgsize_bitmap = pgsize_bitmap pc2, aperture_start = dma_min ?dt,
                            aperture_end = dmax1, force_aperture = True\<rparr> \<and>
             dom_stream_maps dd' = dom_stream_maps ?dd1 \<and> pgtbl_ops dd' \<noteq> None)"
        using inv by (rule conjunct2)
      then consider
        (fail) "alloc (fmt (hw ?dt)) pc1 = None" "ret = - ENOMEM" "dd' = ?dd1\<lparr>pgtbl_ops := None\<rparr>"
        | (ok) pc2 pt where "alloc (fmt (hw ?dt)) pc1 = Some (pc2, pt)" "finalized dd'"
            "dom_mask dd' = finalize_mask ?dt pc2 (dom_mask ?dd1)"
            "domain dd' = \<lparr>dom_pgsize_bitmap = pgsize_bitmap pc2, aperture_start = dma_min ?dt,
                            aperture_end = dmax1, force_aperture = True\<rparr>"
            "pgtbl_ops dd' \<noteq> None"
        by (elim disjE exE conjE) auto
      then show ?thesis
      proof cases
        case fail
        have "ret \<noteq> 0" using fail(2) by (simp add: ENOMEM_def)
        moreover have "\<not> finalized dd'" using fail(3) nf by simp
        ultimately show ?thesis
          using d le ws(2) log by blast
      next
        case ok
        have m: "dom_mask dd' = finalize_mask ?dt pc2 (dom_mask dd)"
          using ok(3) by simp
        have g: "dom_pgsize_bitmap (domain dd') = pgsize_bitmap pc2"
          using ok(4) by simp
        have p: "fst (finalize_prepare d c (under_init_lock s)) = Inr (pc1, dmax1)"
          using R Inr b by (simp add: under_init_lock_def)
        show ?thesis
          using d le p ok(1,2,5) m g log ws(2) ds by blast
      qed
    qed
  qed
qed

lemma fls64_40: "fls64 0xFFFFFFFFFF = 40"
  by (simp add: fls64_def bit_length.simps)

lemma ex_cfg_slot0: "dart (stream_maps ex_cfg 0) = Some 0" "sidmap (stream_maps ex_cfg 0) = 2"
  by (simp_all add: ex_cfg_def put_sid_def kzalloc_master_cfg_def set_bit_eq)

lemma ex_bits_2: "for_each_set_bit 2 (unat (num_streams ex_locked3_dart)) = [1]"
  by (simp add: for_each_set_bit_def ex_locked3_dart_def ex_dart_def upt_conv_Cons
        bit_numeral_iff bit_iff_odd)

lemma readl_WARN_ON [simp]: "readl d off (WARN_ON c s) = readl d off s"
  by (simp add: readl_def)

lemma readl_log_event [simp]: "readl d off (log_event e s) = readl d off s"
  by (simp add: readl_def)

lemma finalize_locked_range_error:
  assumes "tcr_4level (hw (darts s d)) \<noteq> 0" and "ias (darts s d) > 36"
    and "readl d (DART_TCR (darts s d) (find_first_bit m (unat (num_streams (darts s d))))) s AND
           tcr_4level (hw (darts s d)) = 0"
    and "ias0 > 36"
    and "\<not> (dma_min (darts s d) = 0 \<and> dmax = DMA_BIT_MASK (unat (ias (darts s d))))"
    and "(dma_min (darts s d) XOR dmax) AND NOT (DMA_BIT_MASK 36) \<noteq> 0"
  shows "fst (finalize_locked d m ias0 pc dmax s) = Inl (- ENOMEM)"
  using assms by (simp add: finalize_locked_def Let_def)

text \<open>
  Claim C6. Take a locked unit whose layout has a four-level bit, whose bound stream
  runs three levels (the bit is clear in its TCR), and whose requested width (the
  smaller of the unit's width and the bits the upper DMA bound needs) exceeds 36. If
  the DMA range is neither the full default range of the unit nor a range whose two
  bounds agree on every bit above the low 36, finalize on a domain not yet finalized
  fails: it returns an error (the code is \<^verbatim>\<open>-ENOMEM\<close>) without calling the allocator,
  and the domain stays unfinalized with its page-table handle, mask and aperture as
  they were. The range is not reinterpreted.
\<close>

theorem finalize_locked_range_fails:
  assumes "dart (stream_maps c 0) = Some d"
    and "unat (pgsize (darts s d)) \<le> P"
    and "\<not> finalized dd"
    and "locked (darts s d)"
    and "tcr_4level (hw (darts s d)) \<noteq> 0"
    and "readl d (DART_TCR (darts s d)
           (find_first_bit (sidmap (stream_maps c 0)) (unat (num_streams (darts s d))))) s AND
         tcr_4level (hw (darts s d)) = 0"
    and "min (ias (darts s d)) (of_nat (fls64 (dma_max (darts s d)))) > 36"
    and "\<not> (dma_min (darts s d) = 0 \<and>
            dma_max (darts s d) = DMA_BIT_MASK (unat (ias (darts s d))))"
    and "(dma_min (darts s d) XOR dma_max (darts s d)) AND NOT (DMA_BIT_MASK 36) \<noteq> 0"
  shows "\<exists>ret dd' s' ws.
           apple_dart_finalize_domain P alloc regions fuel dd c s = Some (Inr (ret, dd', s')) \<and>
           ret = - ENOMEM \<and> ret \<noteq> 0 \<and>
           \<not> finalized dd' \<and> pgtbl_ops dd' = pgtbl_ops dd \<and>
           dom_mask dd' = dom_mask dd \<and> domain dd' = domain dd \<and>
           klog s' = klog s @ [MUTEX_LOCK, READ_FINALIZED] @ ws @ [MUTEX_UNLOCK] \<and>
           set ws \<subseteq> {WARN} \<and> darts s' = darts s"
proof -
  let ?dt = "darts s d"
  let ?s1 = "log_event READ_FINALIZED (log_event MUTEX_LOCK s)"
  let ?ias0 = "min (ias ?dt) (of_nat (fls64 (dma_max ?dt)))"
  let ?pc0 = "finalize_init_cfg ?dt ?ias0"
  let ?m = "sidmap (stream_maps c 0)"
  let ?L = "finalize_locked d ?m ?ias0 ?pc0 (dma_max ?dt) ?s1"
  let ?dd1 = "dd\<lparr>dom_stream_maps :=
                copy_stream_maps (BITS_TO_LONGS (unat (num_streams ?dt)))
                  (stream_maps c) (dom_stream_maps dd)\<rparr>"
  have wide: "ias ?dt > 36"
    using assms(7) by simp
  have prep: "finalize_prepare d c ?s1 = ?L"
    using assms(4) by (simp add: finalize_prepare_def Let_def)
  have "fst ?L = Inl (- ENOMEM)"
    using assms(5) wide assms(6) assms(7) assms(8) assms(9)
    by (intro finalize_locked_range_error) simp_all
  then have L: "?L = (Inl (- ENOMEM), snd ?L)"
    by (metis prod.collapse)
  from finalize_locked_log [of d ?m ?ias0 ?pc0 "dma_max ?dt" ?s1] obtain ws where
    ws: "klog (snd ?L) = klog ?s1 @ ws" "set ws \<subseteq> {WARN}" "darts (snd ?L) = darts ?s1"
    by (elim exE conjE) (rule that)
  have run: "apple_dart_finalize_domain P alloc regions fuel dd c s =
      Some (Inr (- ENOMEM, ?dd1, log_event MUTEX_UNLOCK (snd ?L)))"
  proof -
    have prepL: "finalize_prepare d c ?s1 = (Inl (- ENOMEM), snd ?L)"
      using prep L by simp
    show ?thesis
      using assms(1,2,3) by (simp add: apple_dart_finalize_domain_def Let_def prepL)
  qed
  have log: "klog (log_event MUTEX_UNLOCK (snd ?L)) =
      klog s @ [MUTEX_LOCK, READ_FINALIZED] @ ws @ [MUTEX_UNLOCK]"
    using ws(1) by simp
  have ds: "darts (log_event MUTEX_UNLOCK (snd ?L)) = darts s"
    using ws(3) by simp
  have ne: "- ENOMEM \<noteq> 0"
    by (simp add: ENOMEM_def)
  show ?thesis
    apply (rule exI [of _ "- ENOMEM"], rule exI [of _ ?dd1])
    apply (rule exI [of _ "log_event MUTEX_UNLOCK (snd ?L)"], rule exI [of _ ws])
    apply (intro conjI)
    subgoal by (rule run)
    subgoal by (rule refl)
    subgoal by (rule ne)
    subgoal using assms(3) by simp
    subgoal by simp
    subgoal by simp
    subgoal by simp
    subgoal by (rule log)
    subgoal by (rule ws(2))
    subgoal by (rule ds)
    done
qed

theorem finalize_locked_range_fails_witness:
  "\<exists>ret dd' s'.
     apple_dart_finalize_domain 0x4000 ex_alloc [] 0
       (kzalloc_domain :: (u64 \<times> u64) list apple_dart_domain) ex_cfg ex_locked3_state =
         Some (Inr (ret, dd', s')) \<and>
     ret = - 12 \<and> \<not> finalized dd' \<and> pgtbl_ops dd' = None \<and> ALLOC_PGTABLE \<notin> set (klog s')"
proof -
  have dt: "darts ex_locked3_state 0 = ex_locked3_dart"
    by (simp add: ex_locked3_state_def)
  have f: "locked ex_locked3_dart" "ias ex_locked3_dart = 42" "dma_max ex_locked3_dart = 0xFFFFFFFFFF"
    "dma_min ex_locked3_dart = 0" "hw ex_locked3_dart = apple_dart_hw_t8110"
    by (simp_all add: ex_locked3_dart_def ex_dart_def)
  have hwf: "tcr_4level apple_dart_hw_t8110 = 8" "tcr apple_dart_hw_t8110 = 0x1000"
    by (simp_all add: apple_dart_hw_t8110_def DART_T8110_TCR_FOUR_LEVEL_def BIT_def
          DART_T8110_TCR_def)
  have first: "find_first_bit 2 (unat (num_streams ex_locked3_dart)) = Suc 0"
    by (simp add: find_first_bit_def ex_bits_2)
  have h1: "dart (stream_maps ex_cfg 0) = Some 0"
    by (rule ex_cfg_slot0(1))
  have h2: "unat (pgsize (darts ex_locked3_state 0)) \<le> 0x4000"
    by (simp add: dt ex_locked3_dart_def ex_dart_def)
  have h3: "\<not> finalized (kzalloc_domain :: (u64 \<times> u64) list apple_dart_domain)"
    by (simp add: kzalloc_domain_def)
  have h4: "locked (darts ex_locked3_state 0)"
    by (simp add: dt f)
  have h5: "tcr_4level (hw (darts ex_locked3_state 0)) \<noteq> 0"
    by (simp add: dt f hwf)
  have h6: "readl 0 (DART_TCR (darts ex_locked3_state 0)
           (find_first_bit (sidmap (stream_maps ex_cfg 0))
              (unat (num_streams (darts ex_locked3_state 0))))) ex_locked3_state AND
         tcr_4level (hw (darts ex_locked3_state 0)) = 0"
    by (simp add: dt ex_cfg_slot0 first readl_def DART_TCR_def f hwf)
       (simp add: ex_locked3_dart_def)
  have h7: "min (ias (darts ex_locked3_state 0))
              (of_nat (fls64 (dma_max (darts ex_locked3_state 0)))) > 36"
    by (simp add: dt f fls64_40)
  have h8: "\<not> (dma_min (darts ex_locked3_state 0) = 0 \<and>
            dma_max (darts ex_locked3_state 0) =
              DMA_BIT_MASK (unat (ias (darts ex_locked3_state 0))))"
    by (simp add: dt f DMA_BIT_MASK_def)
  have h9: "(dma_min (darts ex_locked3_state 0) XOR dma_max (darts ex_locked3_state 0)) AND
              NOT (DMA_BIT_MASK 36) \<noteq> 0"
    by (simp add: dt f DMA_BIT_MASK_def)
  from finalize_locked_range_fails [OF h1 h2 h3 h4 h5 h6 h7 h8 h9, of ex_alloc "[]" 0]
  obtain ret dd' s' ws where
    run: "apple_dart_finalize_domain 0x4000 ex_alloc [] 0
       (kzalloc_domain :: (u64 \<times> u64) list apple_dart_domain) ex_cfg ex_locked3_state =
         Some (Inr (ret, dd', s'))"
    and ret: "ret = - ENOMEM"
    and nf: "\<not> finalized dd'"
    and ops: "pgtbl_ops dd' = pgtbl_ops (kzalloc_domain :: (u64 \<times> u64) list apple_dart_domain)"
    and log: "klog s' = klog ex_locked3_state @ [MUTEX_LOCK, READ_FINALIZED] @ ws @ [MUTEX_UNLOCK]"
    and ws: "set ws \<subseteq> {WARN}"
    by (elim exE conjE) (rule that)
  have "ret = - 12"
    using ret by (simp add: ENOMEM_def)
  moreover have "pgtbl_ops dd' = None"
    using ops by (simp add: kzalloc_domain_def)
  moreover have "ALLOC_PGTABLE \<notin> set (klog s')"
    using log ws by (auto simp: ex_locked3_state_def)
  ultimately show ?thesis
    using run nf by blast
qed

lemma unat_min_word: "unat (min a b) = min (unat a) (unat (b :: 'a :: len word))"
  by (simp add: min_def word_le_nat_alt)

lemma finalize_mask_bits:
  "finalize_mask dt pc old =
     (if pgsize_bitmap pc = SZ_4K then mask (min (unat (ias dt)) 32)
      else if n_levels pc = 3 then mask (min (unat (ias dt)) 36)
      else if n_levels pc = 4 then mask (min (unat (ias dt)) 47)
      else old)"
  by (simp add: finalize_mask_def DMA_BIT_MASK_mask unat_min_word)

text \<open>
  Claim C5. When a call of finalize on a domain not yet finalized returns with the
  domain marked finalized, the unit in slot 0 of the config, the configuration prepared
  for it and the configuration the allocator returned for that determine the mask: the
  low 32 bits when the returned page-size bitmap is 4 KiB; otherwise the low 36 bits
  when the returned level count is 3 and the low 47 bits when it is 4; in each case at
  most as many bits as the unit's input address width. (With another level count and
  another page size the mask keeps its value.)
\<close>

theorem finalize_iova_mask:
  assumes "\<not> finalized dd"
    and "apple_dart_finalize_domain P alloc regions fuel dd c s = Some (Inr (ret, dd', s'))"
    and "finalized dd'"
  shows "\<exists>d pc1 dmax1 pc2 pt.
           dart (stream_maps c 0) = Some d \<and>
           fst (finalize_prepare d c (under_init_lock s)) = Inr (pc1, dmax1) \<and>
           alloc (fmt (hw (darts s d))) pc1 = Some (pc2, pt) \<and>
           dom_pgsize_bitmap (domain dd') = pgsize_bitmap pc2 \<and>
           dom_mask dd' =
             (if pgsize_bitmap pc2 = SZ_4K then mask (min (unat (ias (darts s d))) 32)
              else if n_levels pc2 = 3 then mask (min (unat (ias (darts s d))) 36)
              else if n_levels pc2 = 4 then mask (min (unat (ias (darts s d))) 47)
              else dom_mask dd)"
proof -
  from finalize_inv [OF assms(1,2)] obtain d where
    d: "dart (stream_maps c 0) = Some d"
    and alt: "(unat (pgsize (darts s d)) > P \<and> ret = - EINVAL \<and> dd' = dd \<and> s' = s) \<or>
       (unat (pgsize (darts s d)) \<le> P \<and> \<not> finalized dd' \<and> ret \<noteq> 0 \<and>
          (\<exists>ws. klog s' = klog s @ [MUTEX_LOCK, READ_FINALIZED] @ ws @ [MUTEX_UNLOCK] \<and> set ws \<subseteq> {WARN})) \<or>
       (unat (pgsize (darts s d)) \<le> P \<and> \<not> finalized dd' \<and> ret \<noteq> 0 \<and>
          (\<exists>ws. klog s' = klog s @ [MUTEX_LOCK, READ_FINALIZED] @ ws @ [ALLOC_PGTABLE, MUTEX_UNLOCK] \<and>
                set ws \<subseteq> {WARN})) \<or>
       (unat (pgsize (darts s d)) \<le> P \<and> finalized dd' \<and> pgtbl_ops dd' \<noteq> None \<and> darts s' = darts s \<and>
          (\<exists>pc1 dmax1 pc2 pt ws.
             fst (finalize_prepare d c (under_init_lock s)) = Inr (pc1, dmax1) \<and>
             alloc (fmt (hw (darts s d))) pc1 = Some (pc2, pt) \<and>
             dom_mask dd' = finalize_mask (darts s d) pc2 (dom_mask dd) \<and>
             dom_pgsize_bitmap (domain dd') = pgsize_bitmap pc2 \<and>
             klog s' = klog s @ [MUTEX_LOCK, READ_FINALIZED] @ ws @ [ALLOC_PGTABLE, MUTEX_UNLOCK] \<and>
             set ws \<subseteq> {WARN}))"
    by (elim exE conjE) (rule that)
  from alt assms(1,3) obtain pc1 dmax1 pc2 pt where
    ok: "fst (finalize_prepare d c (under_init_lock s)) = Inr (pc1, dmax1)"
      "alloc (fmt (hw (darts s d))) pc1 = Some (pc2, pt)"
      "dom_mask dd' = finalize_mask (darts s d) pc2 (dom_mask dd)"
      "dom_pgsize_bitmap (domain dd') = pgsize_bitmap pc2"
    by (elim disjE exE conjE) auto
  show ?thesis
    apply (rule exI [of _ d], rule exI [of _ pc1], rule exI [of _ dmax1])
    apply (rule exI [of _ pc2], rule exI [of _ pt])
    using d ok by (simp add: finalize_mask_bits)
qed

lemma fls64_42: "fls64 0x3FFFFFFFFFF = 42"
  by (simp add: fls64_def bit_length.simps)

lemma ex_prepare:
  "finalize_prepare 0 ex_cfg (under_init_lock ex_state) =
     (Inr (finalize_init_cfg ex_dart 42, 0x3FFFFFFFFFF), under_init_lock ex_state)"
proof -
  have dt: "darts (under_init_lock ex_state) 0 = ex_dart"
    by (simp add: under_init_lock_def ex_state_def)
  have f: "\<not> locked ex_dart" "ias ex_dart = 42" "dma_max ex_dart = 0x3FFFFFFFFFF"
    by (simp_all add: ex_dart_def DMA_BIT_MASK_def)
  have ias0: "min (42 :: u32) (of_nat (fls64 0x3FFFFFFFFFF)) = 42"
    by (simp add: fls64_42)
  show ?thesis
    unfolding finalize_prepare_def Let_def dt by (simp add: f ias0)
qed

lemma ex_finalize_first:
  "\<exists>dd1 s1. apple_dart_finalize_domain 0x4000 ex_alloc [] 0
      (kzalloc_domain :: (u64 \<times> u64) list apple_dart_domain) ex_cfg ex_state =
        Some (Inr (0, dd1, s1)) \<and>
      finalized dd1 \<and>
      klog s1 = [MUTEX_LOCK, READ_FINALIZED, ALLOC_PGTABLE, MUTEX_UNLOCK] \<and>
      darts s1 = darts ex_state"
proof -
  have pg: "\<not> unat (pgsize (darts ex_state 0)) > 0x4000"
    by (simp add: ex_state_def ex_dart_def)
  have nf: "\<not> finalized (kzalloc_domain :: (u64 \<times> u64) list apple_dart_domain)"
    by (simp add: kzalloc_domain_def)
  have prep: "finalize_prepare 0 ex_cfg (log_event READ_FINALIZED (log_event MUTEX_LOCK ex_state)) =
     (Inr (finalize_init_cfg ex_dart 42, 0x3FFFFFFFFFF), under_init_lock ex_state)"
    using ex_prepare by (simp add: under_init_lock_def)
  have slot: "dart (stream_maps ex_cfg 0) = Some 0"
    by (simp add: ex_cfg_def put_sid_def)
  show ?thesis
    unfolding apple_dart_finalize_domain_def Let_def
    using pg nf
    by (simp add: slot prep finalize_alloc_def ex_alloc_def Let_def under_init_lock_def)
       (simp add: ex_state_def)
qed

theorem finalize_iova_mask_witness:
  "\<exists>ret dd' s'. apple_dart_finalize_domain 0x4000 ex_alloc [] 0
      (kzalloc_domain :: (u64 \<times> u64) list apple_dart_domain) ex_cfg ex_state =
        Some (Inr (ret, dd', s')) \<and>
      finalized dd' \<and> dom_mask dd' = mask 42"
proof -
  from ex_finalize_first obtain dd1 s1 where
    run: "apple_dart_finalize_domain 0x4000 ex_alloc [] 0
      (kzalloc_domain :: (u64 \<times> u64) list apple_dart_domain) ex_cfg ex_state =
        Some (Inr (0, dd1, s1))"
    and fin: "finalized dd1"
    by (elim exE conjE) (rule that)
  have nf: "\<not> finalized (kzalloc_domain :: (u64 \<times> u64) list apple_dart_domain)"
    by (simp add: kzalloc_domain_def)
  from finalize_iova_mask [OF nf run fin] obtain d pc1 dmax1 pc2 pt where
    d: "dart (stream_maps ex_cfg 0) = Some d"
    and p: "fst (finalize_prepare d ex_cfg (under_init_lock ex_state)) = Inr (pc1, dmax1)"
    and a: "ex_alloc (fmt (hw (darts ex_state d))) pc1 = Some (pc2, pt)"
    and m: "dom_mask dd1 =
             (if pgsize_bitmap pc2 = SZ_4K then mask (min (unat (ias (darts ex_state d))) 32)
              else if n_levels pc2 = 3 then mask (min (unat (ias (darts ex_state d))) 36)
              else if n_levels pc2 = 4 then mask (min (unat (ias (darts ex_state d))) 47)
              else dom_mask (kzalloc_domain :: (u64 \<times> u64) list apple_dart_domain))"
    by (elim exE conjE) (rule that)
  have d0: "d = 0"
    using d by (simp add: ex_cfg_def put_sid_def)
  have pc1: "pc1 = finalize_init_cfg ex_dart 42"
    using p by (simp add: d0 ex_prepare)
  have pc2: "pgsize_bitmap pc2 = 0x4000" "n_levels pc2 = 4"
    using a by (auto simp: pc1 ex_alloc_def Let_def finalize_init_cfg_def ex_dart_def)
  have "dom_mask dd1 = mask 42"
    using m by (simp add: pc2 SZ_4K_def d0) (simp add: ex_state_def ex_dart_def)
  then show ?thesis
    using run fin by blast
qed

lemma count_warns: "set ws \<subseteq> {WARN} \<Longrightarrow> count_list ws ALLOC_PGTABLE = 0"
  by (induction ws) auto

text \<open>
  Claim C1, as the code has it. Let a call of finalize on a domain not yet finalized
  return 0. Then the domain is finalized and has a page table; the call took the init
  mutex, read the flag once under it, called the allocator once and released the mutex
  (apart from warnings of the locked-unit block). A further call on that domain, for any
  device whose first unit has a page size of at most \<open>PAGE_SIZE\<close>, takes the mutex,
  reads the flag, releases the mutex and returns 0 with the domain unchanged, mask and
  page table included. Over both calls the allocator is called exactly once.
\<close>

theorem finalize_twice:
  assumes "\<not> finalized dd"
    and "apple_dart_finalize_domain P alloc regions fuel dd c s = Some (Inr (0, dd1, s1))"
    and "dart (stream_maps c2 0) = Some d2"
    and "unat (pgsize (darts s d2)) \<le> P"
  shows "finalized dd1 \<and> pgtbl_ops dd1 \<noteq> None \<and>
         (\<exists>ws. klog s1 = klog s @ [MUTEX_LOCK, READ_FINALIZED] @ ws @ [ALLOC_PGTABLE, MUTEX_UNLOCK] \<and>
               set ws \<subseteq> {WARN}) \<and>
         apple_dart_finalize_domain P alloc regions2 fuel2 dd1 c2 s1 =
           Some (Inr (0, dd1, s1\<lparr>klog := klog s1 @ [MUTEX_LOCK, READ_FINALIZED, MUTEX_UNLOCK]\<rparr>)) \<and>
         count_list (klog s1 @ [MUTEX_LOCK, READ_FINALIZED, MUTEX_UNLOCK]) ALLOC_PGTABLE =
           count_list (klog s) ALLOC_PGTABLE + 1"
proof -
  from finalize_inv [OF assms(1,2)] obtain d where
    alt: "(unat (pgsize (darts s d)) > P \<and> (0::int) = - EINVAL \<and> dd1 = dd \<and> s1 = s) \<or>
       (unat (pgsize (darts s d)) \<le> P \<and> \<not> finalized dd1 \<and> (0::int) \<noteq> 0 \<and>
          (\<exists>ws. klog s1 = klog s @ [MUTEX_LOCK, READ_FINALIZED] @ ws @ [MUTEX_UNLOCK] \<and> set ws \<subseteq> {WARN})) \<or>
       (unat (pgsize (darts s d)) \<le> P \<and> \<not> finalized dd1 \<and> (0::int) \<noteq> 0 \<and>
          (\<exists>ws. klog s1 = klog s @ [MUTEX_LOCK, READ_FINALIZED] @ ws @ [ALLOC_PGTABLE, MUTEX_UNLOCK] \<and>
                set ws \<subseteq> {WARN})) \<or>
       (unat (pgsize (darts s d)) \<le> P \<and> finalized dd1 \<and> pgtbl_ops dd1 \<noteq> None \<and> darts s1 = darts s \<and>
          (\<exists>pc1 dmax1 pc2 pt ws.
             fst (finalize_prepare d c (under_init_lock s)) = Inr (pc1, dmax1) \<and>
             alloc (fmt (hw (darts s d))) pc1 = Some (pc2, pt) \<and>
             dom_mask dd1 = finalize_mask (darts s d) pc2 (dom_mask dd) \<and>
             dom_pgsize_bitmap (domain dd1) = pgsize_bitmap pc2 \<and>
             klog s1 = klog s @ [MUTEX_LOCK, READ_FINALIZED] @ ws @ [ALLOC_PGTABLE, MUTEX_UNLOCK] \<and>
             set ws \<subseteq> {WARN}))"
    by (elim exE conjE) (rule that)
  have e: "(0::int) \<noteq> - EINVAL"
    by (simp add: EINVAL_def)
  from alt e obtain ws where
    fin: "finalized dd1" and ops: "pgtbl_ops dd1 \<noteq> None" and ds: "darts s1 = darts s"
    and log: "klog s1 = klog s @ [MUTEX_LOCK, READ_FINALIZED] @ ws @ [ALLOC_PGTABLE, MUTEX_UNLOCK]"
    and ws: "set ws \<subseteq> {WARN}"
    by (elim disjE exE conjE) auto
  have second: "apple_dart_finalize_domain P alloc regions2 fuel2 dd1 c2 s1 =
           Some (Inr (0, dd1, s1\<lparr>klog := klog s1 @ [MUTEX_LOCK, READ_FINALIZED, MUTEX_UNLOCK]\<rparr>))"
    using fin assms(3) assms(4) by (intro finalize_finalized) (simp_all add: ds)
  have cnt: "count_list (klog s1 @ [MUTEX_LOCK, READ_FINALIZED, MUTEX_UNLOCK]) ALLOC_PGTABLE =
           count_list (klog s) ALLOC_PGTABLE + 1"
    by (simp add: log count_warns [OF ws])
  show ?thesis
    using fin ops log ws second cnt by blast
qed

theorem finalize_twice_witness:
  "\<exists>dd1 s1.
     apple_dart_finalize_domain 0x4000 ex_alloc [] 0
       (kzalloc_domain :: (u64 \<times> u64) list apple_dart_domain) ex_cfg ex_state =
         Some (Inr (0, dd1, s1)) \<and>
     apple_dart_finalize_domain 0x4000 ex_alloc [] 0 dd1 ex_cfg s1 =
         Some (Inr (0, dd1, s1\<lparr>klog := klog s1 @ [MUTEX_LOCK, READ_FINALIZED, MUTEX_UNLOCK]\<rparr>)) \<and>
     count_list (klog s1 @ [MUTEX_LOCK, READ_FINALIZED, MUTEX_UNLOCK]) ALLOC_PGTABLE = 1"
proof -
  from ex_finalize_first obtain dd1 s1 where
    run: "apple_dart_finalize_domain 0x4000 ex_alloc [] 0
      (kzalloc_domain :: (u64 \<times> u64) list apple_dart_domain) ex_cfg ex_state =
        Some (Inr (0, dd1, s1))"
    by (elim exE conjE) (rule that)
  have nf: "\<not> finalized (kzalloc_domain :: (u64 \<times> u64) list apple_dart_domain)"
    by (simp add: kzalloc_domain_def)
  have slot: "dart (stream_maps ex_cfg 0) = Some 0"
    by (simp add: ex_cfg_def put_sid_def)
  have pg: "unat (pgsize (darts ex_state 0)) \<le> 0x4000"
    by (simp add: ex_state_def ex_dart_def)
  have l0: "klog ex_state = []"
    by (simp add: ex_state_def)
  note t = finalize_twice [OF nf run slot pg, of "[]" 0]
  have "apple_dart_finalize_domain 0x4000 ex_alloc [] 0 dd1 ex_cfg s1 =
         Some (Inr (0, dd1, s1\<lparr>klog := klog s1 @ [MUTEX_LOCK, READ_FINALIZED, MUTEX_UNLOCK]\<rparr>))"
    using t by (elim conjE)
  moreover have "count_list (klog s1 @ [MUTEX_LOCK, READ_FINALIZED, MUTEX_UNLOCK]) ALLOC_PGTABLE = 1"
    using t by (elim conjE) (simp add: l0)
  ultimately show ?thesis
    using run by blast
qed

text \<open>
  The claim as worded has the flag checked before the mutex is taken as well as after.
  On the example device the first call returns 0 and its events are: lock, read of the
  flag, allocation, unlock. The flag is read once, under the mutex; nothing precedes
  the lock.
\<close>

theorem finalize_single_check_counterexample:
  "returned (apple_dart_finalize_domain 0x4000 ex_alloc [] 0
      (kzalloc_domain :: (u64 \<times> u64) list apple_dart_domain) ex_cfg ex_state) =
     Some (0, [MUTEX_LOCK, READ_FINALIZED, ALLOC_PGTABLE, MUTEX_UNLOCK])"
proof -
  from ex_finalize_first obtain dd1 s1 where
    "apple_dart_finalize_domain 0x4000 ex_alloc [] 0
      (kzalloc_domain :: (u64 \<times> u64) list apple_dart_domain) ex_cfg ex_state =
        Some (Inr (0, dd1, s1))"
    "klog s1 = [MUTEX_LOCK, READ_FINALIZED, ALLOC_PGTABLE, MUTEX_UNLOCK]"
    by (elim exE conjE) (rule that)
  then show ?thesis
    by (simp add: returned_def)
qed


end
